theory Spec2Isabelle
  imports Complex_Main "HOL-Library.Sublist"
begin

section \<open>Clip blend manager (class AnimationStateManager)\<close>

text \<open>
  The clip table \<open>animations\<close> maps a clip name to its action object. The source compares
  action objects by reference (\<open>this.activeAction === nextAction\<close>); the loader stores one
  action object per name, so an action is identified here by the name under which the table
  holds it, and the mutable fields of the object live in the table. The fields are the ones
  the source writes. Durations are JavaScript numbers, idealised as reals.
\<close>

datatype loop_mode = LoopRepeat | LoopOnce

datatype fade = NoFade | FadeIn real | FadeOut real

record clip_action =
  ca_time :: real
  ca_loop :: loop_mode
  ca_clampWhenFinished :: bool
  ca_weight :: real
  ca_timeScale :: real
  ca_enabled :: bool
  ca_running :: bool
  ca_fade :: fade
  ca_clipDuration :: "real option"

text \<open>Callbacks which the manager hands to \<open>setTimeout\<close>, with their delay in milliseconds.\<close>

datatype manager_callback = ClearTransitioning | FadeToIdleLater

record manager =
  animations :: "string \<rightharpoonup> clip_action"
  activeAction :: "string option"
  isTransitioning :: bool
  pendingTimeouts :: "(string \<times> nat) list"
  timers :: "(real \<times> manager_callback) list"
  finishedListeners :: "string list"
  warnings :: "string list"

definition clearTimeouts :: "manager \<Rightarrow> manager" where
  "clearTimeouts m = m\<lparr>pendingTimeouts := []\<rparr>"

text \<open>\<open>nextAction.reset()\<close> and the five assignments after it.\<close>

definition setupAction :: "bool \<Rightarrow> clip_action \<Rightarrow> clip_action" where
  "setupAction lp a =
     a\<lparr>ca_time := 0,
       ca_fade := NoFade,
       ca_loop := (if lp then LoopRepeat else LoopOnce),
       ca_clampWhenFinished := (\<not> lp),
       ca_weight := 1,
       ca_timeScale := 1,
       ca_enabled := True\<rparr>"

text \<open>
  \<open>nextAction.crossFadeFrom(prev, d, false)\<close> fades the previous action out and the next
  one in; \<open>nextAction.fadeIn(d)\<close> only fades the next one in.
\<close>

definition startFade ::
  "string option \<Rightarrow> string \<Rightarrow> real \<Rightarrow> (string \<rightharpoonup> clip_action) \<Rightarrow> (string \<rightharpoonup> clip_action)" where
  "startFade prev name d tbl =
     (let tbl1 = (case prev of
                    None \<Rightarrow> tbl
                  | Some p \<Rightarrow> (case tbl p of
                                None \<Rightarrow> tbl
                              | Some pa \<Rightarrow> tbl(p \<mapsto> pa\<lparr>ca_fade := FadeOut d\<rparr>)))
      in (case tbl1 name of
            None \<Rightarrow> tbl1
          | Some na \<Rightarrow> tbl1(name \<mapsto> na\<lparr>ca_fade := FadeIn d, ca_running := True\<rparr>)))"

definition notFoundWarning :: "string \<Rightarrow> string" where
  "notFoundWarning name = ''Animation '' @ [CHR 0x27] @ name @ [CHR 0x27] @ '' not found''"

text \<open>
  \<open>playAction(name, fadeDuration, loop)\<close>: the result is the returned action (\<open>None\<close> for
  \<open>null\<close>) and the manager after the call.
\<close>

definition playAction :: "string \<Rightarrow> real \<Rightarrow> bool \<Rightarrow> manager \<Rightarrow> string option \<times> manager" where
  "playAction name fadeDuration lp m =
     (if isTransitioning m then (None, m)
      else (case animations m name of
              None \<Rightarrow> (None, m\<lparr>warnings := warnings m @ [notFoundWarning name]\<rparr>)
            | Some nextAction \<Rightarrow>
                if activeAction m = Some name then (Some name, m)
                else
                  (let m1 = clearTimeouts (m\<lparr>isTransitioning := True\<rparr>);
                       tbl = (animations m1)(name \<mapsto> setupAction lp nextAction);
                       m2 = m1\<lparr>animations := startFade (activeAction m1) name fadeDuration tbl,
                               activeAction := Some name,
                               timers := timers m1 @ [(fadeDuration * 1000, ClearTransitioning)]\<rparr>;
                       m3 = (if lp then m2
                             else m2\<lparr>finishedListeners := finishedListeners m2 @ [name]\<rparr>)
                   in (Some name, m3))))"

definition fadeToIdle :: "real \<Rightarrow> manager \<Rightarrow> string option \<times> manager" where
  "fadeToIdle fadeDuration m =
     (case animations m ''idle'' of
        None \<Rightarrow> (None, m)
      | Some _ \<Rightarrow>
          (case playAction ''idle'' fadeDuration True m of
             (None, m1) \<Rightarrow> (None, m1)
           | (Some a, m1) \<Rightarrow>
               (Some a,
                (case animations m1 a of
                   None \<Rightarrow> m1
                 | Some ia \<Rightarrow>
                     m1\<lparr>animations := (animations m1)(a \<mapsto> ia\<lparr>ca_weight := 1, ca_timeScale := 1\<rparr>)\<rparr>))))"

definition stopAction :: "real \<Rightarrow> manager \<Rightarrow> manager" where
  "stopAction fadeDuration m =
     clearTimeouts
       (case activeAction m of
          None \<Rightarrow> m
        | Some a \<Rightarrow>
            (case animations m a of
               None \<Rightarrow> m\<lparr>activeAction := None\<rparr>
             | Some aa \<Rightarrow>
                 m\<lparr>animations := (animations m)(a \<mapsto> aa\<lparr>ca_fade := FadeOut fadeDuration\<rparr>),
                   activeAction := None\<rparr>))"

definition setSpeed :: "real \<Rightarrow> manager \<Rightarrow> manager" where
  "setSpeed speed m =
     (case activeAction m of
        None \<Rightarrow> m
      | Some a \<Rightarrow>
          (case animations m a of
             None \<Rightarrow> m
           | Some aa \<Rightarrow> m\<lparr>animations := (animations m)(a \<mapsto> aa\<lparr>ca_timeScale := speed\<rparr>)\<rparr>))"

text \<open>The two callbacks, run when their timer fires.\<close>

definition runManagerCallback :: "manager_callback \<Rightarrow> manager \<Rightarrow> manager" where
  "runManagerCallback cb m =
     (case cb of
        ClearTransitioning \<Rightarrow> m\<lparr>isTransitioning := False\<rparr>
      | FadeToIdleLater \<Rightarrow> snd (fadeToIdle 0.5 m))"

section \<open>Rotation with angle limiting (class QuaternionRotationController)\<close>

text \<open>
  Angles are JavaScript numbers, idealised as reals. The two \<open>while\<close> loops of
  \<open>normalizeAngle\<close> are the two recursive functions below; over the reals both terminate.
\<close>

function normalize_down :: "real \<Rightarrow> real" where
  "normalize_down angle = (if angle > pi then normalize_down (angle - pi * 2) else angle)"
  by pat_completeness auto
termination
proof (relation "measure (\<lambda>a. nat \<lceil>a / (pi * 2)\<rceil>)")
  show "wf (measure (\<lambda>a. nat \<lceil>a / (pi * 2)\<rceil>))" by simp
next
  fix angle :: real
  assume gt: "pi < angle"
  have eq: "(angle - pi * 2) / (pi * 2) = angle / (pi * 2) - 1"
    by (simp add: diff_divide_distrib)
  have "0 < angle" using gt pi_gt_zero by linarith
  then have "0 < angle / (pi * 2)" by (intro divide_pos_pos) simp_all
  then have "0 < \<lceil>angle / (pi * 2)\<rceil>" by (simp add: zero_less_ceiling)
  moreover have "\<lceil>angle / (pi * 2) - 1\<rceil> = \<lceil>angle / (pi * 2)\<rceil> - 1"
    by (rule ceiling_diff_one)
  ultimately have "nat \<lceil>angle / (pi * 2) - 1\<rceil> < nat \<lceil>angle / (pi * 2)\<rceil>"
    by simp
  then show "(angle - pi * 2, angle) \<in> measure (\<lambda>a. nat \<lceil>a / (pi * 2)\<rceil>)"
    unfolding in_measure eq .
qed

function normalize_up :: "real \<Rightarrow> real" where
  "normalize_up angle = (if angle < - pi then normalize_up (angle + pi * 2) else angle)"
  by pat_completeness auto
termination
proof (relation "measure (\<lambda>a. nat \<lceil>(- a) / (pi * 2)\<rceil>)")
  show "wf (measure (\<lambda>a. nat \<lceil>(- a) / (pi * 2)\<rceil>))" by simp
next
  fix angle :: real
  assume lt: "angle < - pi"
  have "- (angle + pi * 2) = (- angle) - pi * 2" by simp
  then have eq: "(- (angle + pi * 2)) / (pi * 2) = (- angle) / (pi * 2) - 1"
    by (simp only: diff_divide_distrib) simp
  have "0 < - angle" using lt pi_gt_zero by linarith
  then have "0 < (- angle) / (pi * 2)" by (intro divide_pos_pos) simp_all
  then have "0 < \<lceil>(- angle) / (pi * 2)\<rceil>" by (simp add: zero_less_ceiling)
  moreover have "\<lceil>(- angle) / (pi * 2) - 1\<rceil> = \<lceil>(- angle) / (pi * 2)\<rceil> - 1"
    by (rule ceiling_diff_one)
  ultimately have "nat \<lceil>(- angle) / (pi * 2) - 1\<rceil> < nat \<lceil>(- angle) / (pi * 2)\<rceil>"
    by simp
  then show "(angle + pi * 2, angle) \<in> measure (\<lambda>a. nat \<lceil>(- a) / (pi * 2)\<rceil>)"
    unfolding in_measure eq .
qed

declare normalize_down.simps [simp del] normalize_up.simps [simp del]

definition normalizeAngle :: "real \<Rightarrow> real" where
  "normalizeAngle angle = normalize_up (normalize_down angle)"

definition minAngle :: real where
  "minAngle = - pi / 2"

definition maxAngle :: real where
  "maxAngle = pi / 4"

text \<open>The value of \<open>limitedTargetAngle\<close> when the target quaternion is built.\<close>

definition limitedTargetAngle :: "real \<Rightarrow> real" where
  "limitedTargetAngle targetAngleY =
     (let a = normalizeAngle targetAngleY
      in if a < minAngle then minAngle
         else if a > maxAngle then maxAngle
         else a)"

record quaternion =
  qx :: real
  qy :: real
  qz :: real
  qw :: real

text \<open>\<open>Quaternion.setFromAxisAngle\<close> of the three.js library, for a unit axis.\<close>

definition setFromAxisAngle :: "real \<times> real \<times> real \<Rightarrow> real \<Rightarrow> quaternion" where
  "setFromAxisAngle axis angle =
     (case axis of (ax, ay, az) \<Rightarrow>
        \<lparr>qx = ax * sin (angle / 2), qy = ay * sin (angle / 2),
         qz = az * sin (angle / 2), qw = cos (angle / 2)\<rparr>)"

definition targetQuat :: "real \<Rightarrow> quaternion" where
  "targetQuat targetAngleY = setFromAxisAngle (0, 1, 0) (limitedTargetAngle targetAngleY)"

section \<open>Procedural layer (class ProceduralAnimationLayer)\<close>

text \<open>
  A bone is present (\<open>Some\<close> of its rotation) or missing (\<open>None\<close>, the source's
  \<open>null\<close>). Only the rotation of a bone is read or written by the layer.
\<close>

record euler =
  ex :: real
  ey :: real
  ez :: real

definition zeroEuler :: euler where
  "zeroEuler = \<lparr>ex = 0, ey = 0, ez = 0\<rparr>"

record bones =
  head :: "euler option"
  tail :: "euler option"
  earLeft :: "euler option"
  earRight :: "euler option"

text \<open>
  The fields of the character object which the procedural layer and the behaviour state
  machine read and write. \<open>modelScale\<close> is \<open>catModel.scale\<close> (\<open>None\<close> when there is no
  model); \<open>catState\<close> is the getter \<open>state\<close>; \<open>sideEffects\<close> records the timers and
  tweens which the sleep mode starts.
\<close>

datatype cat_effect =
    RandomOrientationTimer real
  | ReturnToIdleTimer string real
  | ModelRotationTween real real real nat

record cat =
  bones :: bones
  mood :: string
  catState :: string
  isTalking :: bool
  talkingIntensity :: real
  modelScale :: "(real \<times> real \<times> real) option"
  animationManager :: "manager option"
  contextBusy :: bool
  sideEffects :: "cat_effect list"

record tail_params =
  baseIntensity :: real
  currentIntensity :: real
  tailPhase :: real
  tailSpeed :: real

record ear_params =
  leftPhase :: real
  rightPhase :: real
  twitchProbability :: real

record breathing_params =
  breathPhase :: real
  breathIntensity :: real
  breathRate :: real

text \<open>
  A micro-gesture registers itself with \<open>requestAnimationFrame\<close> while its progress is
  below 1; the registered callback is recorded with what it captured.
\<close>

datatype frame_callback =
    AnimateFlick euler real
  | AnimateTwitch string euler

record layer =
  layerCat :: cat
  time :: real
  boneBaselines :: "string \<rightharpoonup> euler"
  originalModelScale :: "real option"
  tailAnim :: tail_params
  earAnim :: ear_params
  breathing :: breathing_params
  frameCallbacks :: "frame_callback list"

text \<open>
  What one call of \<open>update\<close> draws from \<open>Math.random()\<close>, one field for each call site,
  and the time which \<open>performance.now()\<close> shows to have passed between the start of a
  micro-gesture and its first frame.
\<close>

record draws =
  tailFlickRoll :: real
  flickIntensityRoll :: real
  flickElapsed :: real
  earTwitchRoll :: real
  earSideRoll :: real
  twitchElapsed :: real

definition lerp :: "real \<Rightarrow> real \<Rightarrow> real \<Rightarrow> real" where
  "lerp start end' factor = start + (end' - start) * factor"

definition restore :: "euler option \<Rightarrow> euler option \<Rightarrow> euler option" where
  "restore bone baseline =
     (case bone of
        None \<Rightarrow> None
      | Some r \<Rightarrow> (case baseline of None \<Rightarrow> Some r | Some b \<Rightarrow> Some b))"

definition resetBaselines :: "layer \<Rightarrow> layer" where
  "resetBaselines l =
     (let c = layerCat l; b = bones c; m = boneBaselines l
      in l\<lparr>layerCat := c\<lparr>bones :=
             b\<lparr>head := restore (head b) (m ''head''),
               tail := restore (tail b) (m ''tail''),
               earLeft := restore (earLeft b) (m ''leftEar''),
               earRight := restore (earRight b) (m ''rightEar'')\<rparr>\<rparr>\<rparr>)"

definition cache :: "string \<Rightarrow> euler option \<Rightarrow> (string \<rightharpoonup> euler) \<Rightarrow> (string \<rightharpoonup> euler)" where
  "cache key bone m = (case bone of None \<Rightarrow> m | Some r \<Rightarrow> m(key \<mapsto> r))"

definition cacheBaselines :: "layer \<Rightarrow> layer" where
  "cacheBaselines l =
     (let b = bones (layerCat l)
      in l\<lparr>boneBaselines :=
             cache ''rightEar'' (earRight b)
               (cache ''leftEar'' (earLeft b)
                 (cache ''tail'' (tail b)
                   (cache ''head'' (head b) (boneBaselines l))))\<rparr>)"

definition baselineOr :: "(string \<rightharpoonup> euler) \<Rightarrow> string \<Rightarrow> euler" where
  "baselineOr m key = (case m key of None \<Rightarrow> zeroEuler | Some b \<Rightarrow> b)"

text \<open>
  \<open>performTailFlick\<close>: the first frame of the flick runs inside the call; the later frames
  are left to \<open>requestAnimationFrame\<close>.
\<close>

definition performTailFlick :: "draws \<Rightarrow> layer \<Rightarrow> layer" where
  "performTailFlick r l =
     (let c = layerCat l; b = bones c
      in (case tail b of
            None \<Rightarrow> l
          | Some rot \<Rightarrow>
              (let flickIntensity = 0.3 + flickIntensityRoll r * 0.2;
                   baseRotation = baselineOr (boneBaselines l) ''tail'';
                   progress = min (flickElapsed r / 150) 1;
                   flickAmount = sin (progress * pi) * flickIntensity;
                   l1 = l\<lparr>layerCat := c\<lparr>bones := b\<lparr>tail := Some (rot\<lparr>ey := ey baseRotation + flickAmount\<rparr>)\<rparr>\<rparr>\<rparr>
               in if progress < 1
                  then l1\<lparr>frameCallbacks := frameCallbacks l1 @ [AnimateFlick baseRotation flickIntensity]\<rparr>
                  else l1)))"

definition tailTarget :: "string \<Rightarrow> tail_params \<Rightarrow> real \<Rightarrow> tail_params" where
  "tailTarget md t delta =
     (if md = ''happy'' then
        t\<lparr>currentIntensity := lerp (currentIntensity t) 0.4 (delta * 2), tailSpeed := 2.0\<rparr>
      else if md = ''excited'' then
        t\<lparr>currentIntensity := lerp (currentIntensity t) 0.6 (delta * 3), tailSpeed := 3.0\<rparr>
      else if md = ''curious'' then
        t\<lparr>currentIntensity := lerp (currentIntensity t) 0.3 (delta * 1.5), tailSpeed := 1.5\<rparr>
      else if md = ''sleepy'' then
        t\<lparr>currentIntensity := lerp (currentIntensity t) 0.1 delta, tailSpeed := 0.5\<rparr>
      else
        t\<lparr>currentIntensity := lerp (currentIntensity t) (baseIntensity t) delta, tailSpeed := 1.0\<rparr>)"

definition applyTailMotion :: "draws \<Rightarrow> real \<Rightarrow> layer \<Rightarrow> layer" where
  "applyTailMotion r delta l =
     (let c = layerCat l; b = bones c
      in (case tail b of
            None \<Rightarrow> l
          | Some rot \<Rightarrow>
              (let t1 = tailTarget (mood c) (tailAnim l) delta;
                   t2 = t1\<lparr>tailPhase := tailPhase t1 + delta * tailSpeed t1\<rparr>;
                   baseRotation = baselineOr (boneBaselines l) ''tail'';
                   rot1 = rot\<lparr>ey := ey baseRotation + sin (tailPhase t2) * currentIntensity t2,
                              ez := ez baseRotation + cos (tailPhase t2 * 0.7) * currentIntensity t2 * 0.5\<rparr>;
                   l1 = l\<lparr>tailAnim := t2, layerCat := c\<lparr>bones := b\<lparr>tail := Some rot1\<rparr>\<rparr>\<rparr>
               in if tailFlickRoll r < 0.005 then performTailFlick r l1 else l1)))"

text \<open>
  \<open>performEarTwitch(earBone, baselineKey)\<close>; \<open>left\<close> tells which of the two ear bones was
  passed.
\<close>

definition performEarTwitch :: "draws \<Rightarrow> bool \<Rightarrow> string \<Rightarrow> layer \<Rightarrow> layer" where
  "performEarTwitch r left baselineKey l =
     (let c = layerCat l; b = bones c
      in (case (if left then earLeft b else earRight b) of
            None \<Rightarrow> l
          | Some rot \<Rightarrow>
              (let baseRotation = baselineOr (boneBaselines l) baselineKey;
                   progress = min (twitchElapsed r / 120) 1;
                   twitchOffset = sin (progress * pi) * 0.2;
                   rot1 = rot\<lparr>ex := ex baseRotation + twitchOffset\<rparr>;
                   l1 = l\<lparr>layerCat := c\<lparr>bones :=
                          (if left then b\<lparr>earLeft := Some rot1\<rparr> else b\<lparr>earRight := Some rot1\<rparr>)\<rparr>\<rparr>
               in if progress < 1
                  then l1\<lparr>frameCallbacks := frameCallbacks l1 @ [AnimateTwitch baselineKey baseRotation]\<rparr>
                  else l1)))"

definition curiousEars :: "real \<Rightarrow> layer \<Rightarrow> layer" where
  "curiousEars delta l =
     (let c = layerCat l; b = bones c
      in (case (earLeft b, earRight b) of
            (Some lrot, Some rrot) \<Rightarrow>
              (let e = (earAnim l)\<lparr>leftPhase := leftPhase (earAnim l) + delta * 2,
                                   rightPhase := rightPhase (earAnim l) + delta * 1.7\<rparr>;
                   baseLeft = baselineOr (boneBaselines l) ''leftEar'';
                   baseRight = baselineOr (boneBaselines l) ''rightEar''
               in l\<lparr>earAnim := e,
                    layerCat := c\<lparr>bones :=
                      b\<lparr>earLeft := Some (lrot\<lparr>ex := ex baseLeft + sin (leftPhase e) * 0.05\<rparr>),
                        earRight := Some (rrot\<lparr>ex := ex baseRight + sin (rightPhase e) * 0.05\<rparr>)\<rparr>\<rparr>\<rparr>)
          | _ \<Rightarrow> l))"

definition applyEarMotions :: "draws \<Rightarrow> real \<Rightarrow> layer \<Rightarrow> layer" where
  "applyEarMotions r delta l =
     (let b = bones (layerCat l)
      in if earLeft b = None \<or> earRight b = None then l
         else
           (let l1 = (if earTwitchRoll r < twitchProbability (earAnim l)
                      then (if earSideRoll r > 0.5
                            then performEarTwitch r True ''leftEar'' l
                            else performEarTwitch r False ''rightEar'' l)
                      else l)
            in if mood (layerCat l1) = ''curious'' then curiousEars delta l1 else l1))"

definition applyBreathing :: "real \<Rightarrow> layer \<Rightarrow> layer" where
  "applyBreathing delta l =
     (let c = layerCat l
      in (case modelScale c of
            None \<Rightarrow> l
          | Some (sx, sy, sz) \<Rightarrow>
              (let breathingRate = (if catState c = ''sleep'' then 0.3 else 1.0);
                   breathingIntensity = (if catState c = ''sleep'' then 0.02 else 0.01);
                   br = (breathing l)\<lparr>breathPhase := breathPhase (breathing l) + breathingRate * 0.05\<rparr>;
                   breathScale = 1 + sin (breathPhase br) * breathingIntensity;
                   orig = (case originalModelScale l of
                             None \<Rightarrow> sx
                           | Some v \<Rightarrow> if v = 0 then sx else v)
               in l\<lparr>breathing := br,
                    originalModelScale := Some orig,
                    layerCat := c\<lparr>modelScale := Some (sx, orig * breathScale, sz)\<rparr>\<rparr>)))"

definition applyTalkingBehavior :: "real \<Rightarrow> layer \<Rightarrow> layer" where
  "applyTalkingBehavior delta l =
     (let c = layerCat l; b = bones c
      in if \<not> isTalking c then l
         else (case head b of
                 None \<Rightarrow> l
               | Some rot \<Rightarrow>
                   (let bobAmount = talkingIntensity c * 0.08;
                        bobSpeed = 8;
                        baseHead = baselineOr (boneBaselines l) ''head''
                    in l\<lparr>layerCat := c\<lparr>bones :=
                           b\<lparr>head := Some (rot\<lparr>ex := ex baseHead + sin (time l * bobSpeed) * bobAmount\<rparr>)\<rparr>\<rparr>\<rparr>)))"

definition speedMap :: "string \<Rightarrow> real" where
  "speedMap md =
     (if md = ''excited'' then 1.3
      else if md = ''sleepy'' then 0.7
      else if md = ''curious'' then 1.1
      else if md = ''neutral'' then 1.0
      else if md = ''happy'' then 1.1
      else 1.0)"

definition applyMoodInfluences :: "real \<Rightarrow> layer \<Rightarrow> layer" where
  "applyMoodInfluences delta l =
     (let c = layerCat l
      in (case animationManager c of
            None \<Rightarrow> l
          | Some m \<Rightarrow> l\<lparr>layerCat := c\<lparr>animationManager := Some (setSpeed (speedMap (mood c)) m)\<rparr>\<rparr>))"

definition update :: "draws \<Rightarrow> real \<Rightarrow> layer \<Rightarrow> layer" where
  "update r delta l =
     applyMoodInfluences delta
       (applyTalkingBehavior delta
         (applyBreathing delta
           (applyEarMotions r delta
             (applyTailMotion r delta
               (resetBaselines (l\<lparr>time := time l + delta\<rparr>))))))"

section \<open>Behaviour state machine (class BehaviorStateMachine)\<close>

text \<open>
  A state is the string the source compares; \<open>stateData\<close> is whatever object the caller
  passes. A call on a missing animation manager throws a \<open>TypeError\<close>: a function that
  can throw returns the error, if any, together with the state reached when it was thrown.
\<close>

datatype js_error = TypeError

record 'd machine =
  machineCat :: cat
  currentState :: string
  previousState :: string
  stateStartTime :: real
  stateData :: 'd

text \<open>The two draws of \<open>playAnimation\<close> from \<open>Math.random()\<close>.\<close>

record orientation_draws =
  orientationRoll :: real
  orientationDelayRoll :: real

text \<open>\<open>EnhancedTalkingCat.playAnimation(name, fadeDuration, loop)\<close>.\<close>

definition playAnimation ::
  "string \<Rightarrow> real \<Rightarrow> bool \<Rightarrow> orientation_draws \<Rightarrow> cat \<Rightarrow> string option \<times> cat" where
  "playAnimation name fadeDuration lp r c =
     (case animationManager c of
        None \<Rightarrow> (None, c)
      | Some m \<Rightarrow>
          (let (act, m1) = playAction name fadeDuration lp m;
               c1 = c\<lparr>animationManager := Some m1\<rparr>;
               c2 = (if orientationRoll r < 0.3 \<and> \<not> contextBusy c1
                     then c1\<lparr>sideEffects := sideEffects c1 @
                            [RandomOrientationTimer (200 + orientationDelayRoll r * 800)]\<rparr>
                     else c1);
               c3 = (case act of
                       None \<Rightarrow> c2
                     | Some a \<Rightarrow>
                         if lp then c2
                         else
                           (let duration = (case animations m1 a of
                                              None \<Rightarrow> 2.0
                                            | Some ca \<Rightarrow> (case ca_clipDuration ca of
                                                          None \<Rightarrow> 2.0
                                                        | Some d \<Rightarrow> d))
                            in c2\<lparr>sideEffects := sideEffects c2 @
                                 [ReturnToIdleTimer name ((duration + 0.1) * 1000)]\<rparr>))
           in (act, c3)))"

definition enterSleepMode :: "orientation_draws \<Rightarrow> cat \<Rightarrow> cat" where
  "enterSleepMode r c =
     (let c1 = snd (playAnimation ''idle'' 1.0 True r c);
          c2 = (case animationManager c1 of
                  None \<Rightarrow> c1
                | Some m \<Rightarrow> c1\<lparr>animationManager := Some (setSpeed 0.3 m)\<rparr>)
      in (case modelScale c2 of
            None \<Rightarrow> c2
          | Some _ \<Rightarrow> c2\<lparr>sideEffects := sideEffects c2 @ [ModelRotationTween 0 0 (pi * 0.15) 2000]\<rparr>))"

definition exitSleepMode :: "cat \<Rightarrow> cat" where
  "exitSleepMode c =
     (let c1 = (case animationManager c of
                  None \<Rightarrow> c
                | Some m \<Rightarrow> c\<lparr>animationManager := Some (setSpeed 1.0 m)\<rparr>)
      in (case modelScale c1 of
            None \<Rightarrow> c1
          | Some _ \<Rightarrow> c1\<lparr>sideEffects := sideEffects c1 @ [ModelRotationTween 0 0 0 1000]\<rparr>))"

definition onStateEnter :: "string \<Rightarrow> orientation_draws \<Rightarrow> cat \<Rightarrow> js_error option \<times> cat" where
  "onStateEnter state r c =
     (if state = ''idle'' then
        (let c1 = c\<lparr>mood := ''neutral''\<rparr>
         in (case animationManager c1 of
               None \<Rightarrow> (Some TypeError, c1)
             | Some m \<Rightarrow> (None, c1\<lparr>animationManager := Some (snd (playAction ''idle'' 0.5 True m))\<rparr>)))
      else if state = ''playful'' then (None, c\<lparr>mood := ''happy''\<rparr>)
      else if state = ''curious'' then (None, c\<lparr>mood := ''curious''\<rparr>)
      else if state = ''talking'' then (None, c\<lparr>mood := ''engaged''\<rparr>)
      else if state = ''sleep'' then (None, enterSleepMode r (c\<lparr>mood := ''sleepy''\<rparr>))
      else if state = ''processing'' then (None, c\<lparr>mood := ''engaged''\<rparr>)
      else if state = ''listening'' then (None, c\<lparr>mood := ''curious''\<rparr>)
      else (None, c))"

text \<open>
  \<open>changeState(newState, stateData)\<close>; \<open>now\<close> is what \<open>performance.now()\<close> returns.
  The getter \<open>state\<close> of the character reads \<open>currentState\<close>, so \<open>catState\<close> follows it.
\<close>

definition changeState ::
  "string \<Rightarrow> 'd \<Rightarrow> real \<Rightarrow> orientation_draws \<Rightarrow> 'd machine \<Rightarrow> js_error option \<times> 'd machine" where
  "changeState newState data now r s =
     (if newState = currentState s then (None, s)
      else
        (let s1 = s\<lparr>previousState := currentState s,
                    currentState := newState,
                    stateStartTime := now,
                    stateData := data,
                    machineCat := (machineCat s)\<lparr>catState := newState\<rparr>\<rparr>;
             (err, c1) = onStateEnter newState r (machineCat s1)
         in (err, s1\<lparr>machineCat := c1\<rparr>)))"

section \<open>Context selector (class ContextDrivenAnimationController)\<close>

record mapping =
  keywords' :: "string list"
  emotions :: "string list"
  handler :: string
  weight :: real

definition contextMappings :: "mapping list" where
  "contextMappings =
     [\<lparr>keywords' = [''walk'', ''walking'', ''stroll'', ''pace'', ''step''],
       emotions = [''rain'', ''outside'', ''path'', ''journey''],
       handler = ''performWalkingContext'', weight = 1.0\<rparr>,
      \<lparr>keywords' = [''run'', ''running'', ''sprint'', ''fast'', ''speed'', ''rush''],
       emotions = [''energy'', ''quick'', ''hurry'', ''race''],
       handler = ''performRunningContext'', weight = 1.0\<rparr>,
      \<lparr>keywords' = [''jump'', ''jumping'', ''leap'', ''hop'', ''bounce''],
       emotions = [''excited'', ''happy'', ''joy'', ''celebrate''],
       handler = ''performJumpingContext'', weight = 0.8\<rparr>,
      \<lparr>keywords' = [''sleep'', ''tired'', ''sleepy'', ''rest'', ''nap''],
       emotions = [''exhausted'', ''peaceful'', ''calm'', ''quiet''],
       handler = ''performSleepingContext'', weight = 0.7\<rparr>,
      \<lparr>keywords' = [''look'', ''see'', ''watch'', ''observe'', ''gaze''],
       emotions = [''curious'', ''wonder'', ''interesting'', ''notice''],
       handler = ''performLookingContext'', weight = 0.6\<rparr>,
      \<lparr>keywords' = [''play'', ''fun'', ''game'', ''toy'', ''playful''],
       emotions = [''joy'', ''entertainment'', ''amusing'', ''funny''],
       handler = ''performPlayfulContext'', weight = 0.9\<rparr>]"

text \<open>\<open>text.includes(keyword)\<close>: the keyword occurs in the text as a contiguous run.\<close>

fun includes' :: "string \<Rightarrow> string \<Rightarrow> bool" where
  "includes' [] kw = (kw = [])"
| "includes' (c # cs) kw = (prefix kw (c # cs) \<or> includes' cs kw)"

text \<open>
  Numbers. The code computes the scores in IEEE double precision, where every sum and every
  product is rounded. The selector is therefore modelled over any linearly ordered type of
  numbers with an arithmetic of its own: \<open>lit\<close> gives the number that a decimal literal of
  the source denotes, \<open>add\<close> and \<open>mul\<close> give the sum and the product as computed, and the
  comparisons are those of the type (the doubles that occur are finite). \<open>realArith\<close> is
  the exact arithmetic of the reals. The \<open>weight\<close> of a mapping is the literal of the table.
\<close>

record 'n arith =
  lit :: "real \<Rightarrow> 'n"
  add :: "'n \<Rightarrow> 'n \<Rightarrow> 'n"
  mul :: "'n \<Rightarrow> 'n \<Rightarrow> 'n"

definition realArith :: "real arith" where
  "realArith = \<lparr>lit = (\<lambda>x. x), add = (\<lambda>x y. x + y), mul = (\<lambda>x y. x * y)\<rparr>"

text \<open>
  The body of the loop over the mappings up to the comparison: the two inner loops, then
  the multiplication by the weight and the jitter, where \<open>roll\<close> is what \<open>Math.random()\<close>
  returns.
\<close>

definition jitter :: "'n arith \<Rightarrow> 'n \<Rightarrow> 'n" where
  "jitter ar roll = add ar (lit ar 0.8) (mul ar roll (lit ar 0.4))"

definition scoreMapping :: "'n arith \<Rightarrow> string \<Rightarrow> mapping \<Rightarrow> 'n \<Rightarrow> 'n" where
  "scoreMapping ar text m roll =
     (let score1 = fold (\<lambda>keyword score. if includes' text keyword then add ar score (lit ar 2)
                                           else score)
                     (keywords' m) (lit ar 0);
          score2 = fold (\<lambda>emotion score. if includes' text emotion then add ar score (lit ar 1)
                                           else score)
                     (emotions m) score1
      in mul ar score2 (mul ar (lit ar (weight m)) (jitter ar roll)))"

text \<open>
  The loop of \<open>findBestContextMatch\<close>, carrying \<open>bestMatch\<close> and \<open>highestScore\<close>;
  \<open>rolls i\<close> is the draw made for the mapping at position \<open>i\<close>.
\<close>

fun matchLoop ::
  "('n::linorder) arith \<Rightarrow> string \<Rightarrow> (nat \<Rightarrow> 'n) \<Rightarrow> nat \<Rightarrow> mapping list \<Rightarrow> mapping option \<times> 'n
     \<Rightarrow> mapping option \<times> 'n" where
  "matchLoop ar text rolls i [] acc = acc"
| "matchLoop ar text rolls i (m # ms) (bestMatch, highestScore) =
     (let score = scoreMapping ar text m (rolls i)
      in matchLoop ar text rolls (Suc i) ms
           (if score > highestScore \<and> score > lit ar 1.5 then (Some m, score)
            else (bestMatch, highestScore)))"

definition findBestContextMatch ::
  "('n::linorder) arith \<Rightarrow> mapping list \<Rightarrow> string \<Rightarrow> (nat \<Rightarrow> 'n) \<Rightarrow> mapping option" where
  "findBestContextMatch ar ms text rolls = fst (matchLoop ar text rolls 0 ms (None, lit ar 0))"

record selector =
  selMappings :: "mapping list"
  isPerformingContextualAction :: bool

text \<open>
  \<open>analyzeAndTriggerContextualAction\<close> up to the call of the handler: the result is the
  selector and, when a handler is called, its name with the text passed to it. \<open>lower\<close> is
  \<open>String.prototype.toLowerCase\<close>; \<open>fireRoll\<close> is the draw compared with the weight.
\<close>

definition analyzeAndTriggerContextualAction ::
  "('n::linorder) arith \<Rightarrow> (string \<Rightarrow> string) \<Rightarrow> string \<Rightarrow> string \<Rightarrow> (nat \<Rightarrow> 'n) \<Rightarrow> 'n \<Rightarrow> selector
     \<Rightarrow> selector \<times> (string \<times> string) option" where
  "analyzeAndTriggerContextualAction ar lower userInput geminiResponse rolls fireRoll sel =
     (if isPerformingContextualAction sel then (sel, None)
      else
        (let combinedText = lower (userInput @ '' '' @ geminiResponse)
         in (case findBestContextMatch ar (selMappings sel) combinedText rolls of
               None \<Rightarrow> (sel, None)
             | Some contextMatch \<Rightarrow>
                 if fireRoll < lit ar (weight contextMatch)
                 then (sel\<lparr>isPerformingContextualAction := True\<rparr>,
                       Some (handler contextMatch, combinedText))
                 else (sel, None))))"

text \<open>Lower-casing of the ASCII letters, for running the selector on concrete texts.\<close>

definition asciiLower :: "string \<Rightarrow> string" where
  "asciiLower =
     map (\<lambda>c. case map_of (zip ''ABCDEFGHIJKLMNOPQRSTUVWXYZ'' ''abcdefghijklmnopqrstuvwxyz'') c of
                None \<Rightarrow> c
              | Some d \<Rightarrow> d)"

section \<open>Motion controller and action scheduler\<close>

text \<open>
  The scheduler is asynchronous code. Its model is a transition system: a call of the
  interface, the completion of a timer or of a tween, and one turn of the microtask queue
  are the steps. What is still to be done when a timer, a tween or a promise completes is a
  stack of frames, one frame for each callback or \<open>await\<close> that waits for it.
  A promise that resolves hands the code awaiting it to the microtask queue; that the
  hand-over may take more than one turn of that queue is not modelled. Of a tween, only its
  start and its completion are modelled. Positions, angles and durations are reals.
  A call of the interface, and the completion of a timer or of a tween, begin a task of the
  event loop; the microtask turns that follow belong to that task.
\<close>

type_synonym vec3 = "real \<times> real \<times> real"

text \<open>\<open>Math.atan2\<close> over the reals (signed zeros aside).\<close>

definition atan2 :: "real \<Rightarrow> real \<Rightarrow> real" where
  "atan2 y x =
     (if x > 0 then arctan (y / x)
      else if x < 0 then (if y \<ge> 0 then arctan (y / x) + pi else arctan (y / x) - pi)
      else if y > 0 then pi / 2
      else if y < 0 then - pi / 2
      else 0)"

text \<open>
  An action descriptor: \<open>locomotion{animation, targetPosition?, duration?}\<close>,
  \<open>composite{actions, parallel}\<close>, \<open>oneshot{animation, duration?}\<close>.
\<close>

datatype action =
    Locomotion string "vec3 option" "real option"
  | Composite "action list" bool
  | Oneshot string "real option"

text \<open>\<open>action.duration || d\<close>: a missing or zero duration gives the default.\<close>

definition orDefault :: "real option \<Rightarrow> real \<Rightarrow> real" where
  "orDefault duration d = (case duration of None \<Rightarrow> d | Some v \<Rightarrow> if v = 0 then d else v)"

record motion =
  position :: vec3
  orientation :: quaternion
  isMoving :: bool
  isRotating :: bool

text \<open>
  What can be in flight: a timer set with \<open>setTimeout\<close>, with its delay in milliseconds and
  the number of the task in which it was set, and the two kinds of tween.
\<close>

datatype wait = Timer real nat | RotationTween real real | MoveTween vec3 real

datatype frame =
    Resolve
  | AfterRotate vec3 real
  | AfterMove
  | AfterDelay
  | AfterFace
  | Finally action
  | NextSub "action list"
  | Join nat

text \<open>
  The trace records where control passes: the entry of \<open>executeAction\<close>, its \<open>finally\<close>
  block, the \<open>push\<close> of \<open>scheduleAction\<close> and the \<open>shift\<close> of \<open>processQueue\<close>.
\<close>

datatype trace_event = Started action | Finished action | Queued action | Dequeued action

text \<open>
  \<open>pending\<close> holds the timers and tweens in flight, each with the frames waiting for it;
  \<open>joins\<close> holds, for each \<open>Promise.all\<close>, how many of its promises are unresolved and the
  frames waiting for it; when the last of them resolves the frames go to the microtask queue
  and the entry keeps none. \<open>rand\<close> is the sequence of values of \<open>Math.random()\<close>, of which
  \<open>drawn\<close> have been used. \<open>task\<close> is the number of tasks begun so far.
\<close>

record scheduler =
  isExecuting :: bool
  actionQueue :: "action list"
  clips :: manager
  motionCtl :: motion
  cameraPosition :: vec3
  contactShadow :: "vec3 option"
  pending :: "(wait \<times> frame list) list"
  microtasks :: "frame list list"
  joins :: "(nat \<times> frame list) list"
  rand :: "nat \<Rightarrow> real"
  drawn :: nat
  trace :: "trace_event list"
  task :: nat

text \<open>
  \<open>SmoothMotionController.rotateTo\<close> and \<open>moveToPosition\<close>: while a tween of the same
  kind runs, the call returns a resolved promise and never calls \<open>onComplete\<close>.
\<close>

definition rotateTo :: "real \<Rightarrow> real \<Rightarrow> frame list \<Rightarrow> scheduler \<Rightarrow> scheduler" where
  "rotateTo targetAngleY duration onComplete s =
     (if isRotating (motionCtl s) then s
      else s\<lparr>motionCtl := (motionCtl s)\<lparr>isRotating := True\<rparr>,
             pending := pending s @ [(RotationTween targetAngleY duration, onComplete)]\<rparr>)"

definition moveToPosition :: "vec3 \<Rightarrow> real \<Rightarrow> frame list \<Rightarrow> scheduler \<Rightarrow> scheduler" where
  "moveToPosition targetPosition duration onComplete s =
     (if isMoving (motionCtl s) then s
      else s\<lparr>motionCtl := (motionCtl s)\<lparr>isMoving := True\<rparr>,
             pending := pending s @ [(MoveTween targetPosition duration, onComplete)]\<rparr>)"

definition enter :: "action \<Rightarrow> scheduler \<Rightarrow> scheduler" where
  "enter a s = s\<lparr>isExecuting := True, trace := trace s @ [Started a]\<rparr>"

definition play :: "string \<Rightarrow> real \<Rightarrow> bool \<Rightarrow> scheduler \<Rightarrow> scheduler" where
  "play name fadeDuration lp s = s\<lparr>clips := snd (playAction name fadeDuration lp (clips s))\<rparr>"

definition yawTowards :: "vec3 \<Rightarrow> vec3 \<Rightarrow> real" where
  "yawTowards target from =
     (case (target, from) of ((tx, ty, tz), (fx, fy, fz)) \<Rightarrow> atan2 (tx - fx) (tz - fz))"

text \<open>
  \<open>executeAction(action)\<close> as far as it runs within the call; \<open>k\<close> holds the frames of
  the caller that awaits the returned promise. For a parallel composite the join is entered
  in the table before the sub-actions are launched, so that its index is known to them; no
  sub-action can resolve before \<open>Promise.all\<close> is reached, since resolving takes a later turn.
\<close>

fun executeAction :: "action \<Rightarrow> frame list \<Rightarrow> scheduler \<Rightarrow> scheduler" where
  "executeAction (Locomotion animation targetPosition duration) k s =
     (let a = Locomotion animation targetPosition duration;
          s1 = play animation 0.3 True (enter a s)
      in (case targetPosition of
            None \<Rightarrow> s1\<lparr>microtasks := microtasks s1 @ [Finally a # k]\<rparr>
          | Some target \<Rightarrow>
              rotateTo (yawTowards target (position (motionCtl s1))) 0.5
                (AfterRotate target (orDefault duration 2500) # Finally a # k) s1))"
| "executeAction (Oneshot animation duration) k s =
     (let a = Oneshot animation duration;
          s1 = play animation 0.1 False (enter a s)
      in s1\<lparr>pending := pending s1 @ [(Timer (orDefault duration 1000) (task s1), Resolve # Finally a # k)]\<rparr>)"
| "executeAction (Composite [] par) k s =
     (let s1 = enter (Composite [] par) s
      in s1\<lparr>microtasks := microtasks s1 @ [Finally (Composite [] par) # k]\<rparr>)"
| "executeAction (Composite (subAction # rest) False) k s =
     executeAction subAction
       (NextSub rest # Finally (Composite (subAction # rest) False) # k)
       (enter (Composite (subAction # rest) False) s)"
| "executeAction (Composite (subAction # rest) True) k s =
     (let a = Composite (subAction # rest) True;
          s1 = enter a s;
          j = length (joins s1);
          s2 = s1\<lparr>joins := joins s1 @ [(length (subAction # rest), Finally a # k)]\<rparr>
      in fold (\<lambda>sub. executeAction sub [Join j]) (subAction # rest) s2)"

definition processQueue :: "scheduler \<Rightarrow> scheduler" where
  "processQueue s =
     (case actionQueue s of
        [] \<Rightarrow> s
      | nextAction # rest \<Rightarrow>
          executeAction nextAction []
            (s\<lparr>actionQueue := rest, trace := trace s @ [Dequeued nextAction]\<rparr>))"

definition scheduleAction :: "action \<Rightarrow> scheduler \<Rightarrow> scheduler" where
  "scheduleAction actionDescriptor s =
     (if isExecuting s
      then s\<lparr>actionQueue := actionQueue s @ [actionDescriptor],
             trace := trace s @ [Queued actionDescriptor]\<rparr>
      else executeAction actionDescriptor [] s)"

definition cancelAll :: "scheduler \<Rightarrow> scheduler" where
  "cancelAll s =
     s\<lparr>actionQueue := [], isExecuting := False, clips := snd (fadeToIdle 0.5 (clips s))\<rparr>"

text \<open>Running the frames on top of a stack, up to the next wait.\<close>

fun resume :: "frame list \<Rightarrow> scheduler \<Rightarrow> scheduler" where
  "resume [] s = s"
| "resume (Resolve # k) s = s\<lparr>microtasks := microtasks s @ [k]\<rparr>"
| "resume (AfterRotate target duration # k) s = moveToPosition target duration (AfterMove # k) s"
| "resume (AfterMove # k) s =
     (let s1 = s\<lparr>contactShadow :=
                  (case contactShadow s of
                     None \<Rightarrow> None
                   | Some (x, y, z) \<Rightarrow>
                       (case position (motionCtl s) of (px, py, pz) \<Rightarrow> Some (px, y, pz)))\<rparr>;
          s2 = s1\<lparr>clips := snd (fadeToIdle 0.8 (clips s1))\<rparr>
      in s2\<lparr>pending := pending s2 @ [(Timer 200 (task s2), AfterDelay # k)]\<rparr>)"
| "resume (AfterDelay # k) s =
     (let faceAngle = yawTowards (cameraPosition s) (position (motionCtl s));
          variation = (rand s (drawn s) - 0.5) * 0.3
      in rotateTo (faceAngle + variation) 1.0 (AfterFace # k) (s\<lparr>drawn := Suc (drawn s)\<rparr>))"
| "resume (AfterFace # k) s = s\<lparr>microtasks := microtasks s @ [k]\<rparr>"
| "resume (Finally a # k) s =
     (let s1 = processQueue (s\<lparr>isExecuting := False, trace := trace s @ [Finished a]\<rparr>)
      in if k = [] then s1 else s1\<lparr>microtasks := microtasks s1 @ [k]\<rparr>)"
| "resume (NextSub [] # k) s = s\<lparr>microtasks := microtasks s @ [k]\<rparr>"
| "resume (NextSub (subAction # rest) # k) s = executeAction subAction (NextSub rest # k) s"
| "resume (Join j # k) s =
     (if j < length (joins s)
      then (case joins s ! j of
              (n, kj) \<Rightarrow>
                if n = 1
                then s\<lparr>joins := (joins s)[j := (0, [])], microtasks := microtasks s @ [kj]\<rparr>
                else s\<lparr>joins := (joins s)[j := (n - 1, kj)]\<rparr>)
      else s)"

text \<open>What the completion of a timer or of a tween does before the callback runs.\<close>

definition finishWait :: "wait \<Rightarrow> scheduler \<Rightarrow> scheduler" where
  "finishWait w s =
     (case w of
        Timer ms setIn \<Rightarrow> s
      | RotationTween angle duration \<Rightarrow>
          s\<lparr>motionCtl := (motionCtl s)\<lparr>orientation := targetQuat angle, isRotating := False\<rparr>\<rparr>
      | MoveTween target duration \<Rightarrow>
          s\<lparr>motionCtl := (motionCtl s)\<lparr>position := target, isMoving := False\<rparr>\<rparr>)"

text \<open>
  Timers fire in the order in which they fall due. \<open>timeoutOf\<close> is the delay as
  \<open>setTimeout\<close> reads it: in whole milliseconds and not below 0 (delays of \<open>2\<^sup>3\<^sup>1\<close> and more,
  and the lower bound that a browser puts on the delay of deeply nested timers, are not
  modelled). Two timers that carry the same task were set at the same time. So a timer is due
  before another one when it was set earlier (it stands before it in \<open>pending\<close>) with a delay
  that is not longer, or in the same task with a shorter delay. Between two timers of which
  the one set in a later task has the shorter delay, and between a timer and a tween, either
  may complete first.
\<close>

definition timeoutOf :: "real \<Rightarrow> int" where
  "timeoutOf ms = (if ms < 0 then 0 else \<lfloor>ms\<rfloor>)"

fun dueBefore :: "nat \<times> wait \<Rightarrow> nat \<times> wait \<Rightarrow> bool" where
  "dueBefore (j, Timer msj setInj) (i, Timer msi setIni) =
     ((j < i \<and> timeoutOf msj \<le> timeoutOf msi) \<or> (setInj = setIni \<and> timeoutOf msj < timeoutOf msi))"
| "dueBefore (j, wj) (i, wi) = False"

definition mayComplete :: "nat \<Rightarrow> (wait \<times> frame list) list \<Rightarrow> bool" where
  "mayComplete i ps \<longleftrightarrow>
     \<not> list_ex (\<lambda>j. dueBefore (j, fst (ps ! j)) (i, fst (ps ! i))) [0..<length ps]"

text \<open>
  The steps. A timer or a tween completes only between tasks, when no microtask is left, and
  a timer only when no other timer is due before it; the completion of the wait at a
  position which holds none, and a microtask turn with an empty queue, are no steps.
\<close>

datatype event =
    CallSchedule action
  | CallExecute action
  | CallCancelAll
  | Complete nat
  | Microtask
  | ManagerTimer nat

definition newTask :: "scheduler \<Rightarrow> scheduler" where
  "newTask s = s\<lparr>task := Suc (task s)\<rparr>"

definition complete :: "nat \<Rightarrow> scheduler \<Rightarrow> scheduler option" where
  "complete i s =
     (if microtasks s \<noteq> [] \<or> i \<ge> length (pending s) \<or> \<not> mayComplete i (pending s) then None
      else (case pending s ! i of
              (w, k) \<Rightarrow>
                Some (resume k
                       (finishWait w (s\<lparr>pending := take i (pending s) @ drop (Suc i) (pending s)\<rparr>)))))"

definition microtask :: "scheduler \<Rightarrow> scheduler option" where
  "microtask s =
     (case microtasks s of
        [] \<Rightarrow> None
      | k # ks \<Rightarrow> Some (resume k (s\<lparr>microtasks := ks\<rparr>)))"

text \<open>A timer of the clip blend manager fires.\<close>

definition managerTimer :: "nat \<Rightarrow> scheduler \<Rightarrow> scheduler option" where
  "managerTimer i s =
     (if microtasks s \<noteq> [] \<or> i \<ge> length (timers (clips s)) then None
      else Some (s\<lparr>clips :=
                   runManagerCallback (snd (timers (clips s) ! i))
                     ((clips s)\<lparr>timers := take i (timers (clips s)) @ drop (Suc i) (timers (clips s))\<rparr>)\<rparr>))"

fun step :: "event \<Rightarrow> scheduler \<Rightarrow> scheduler option" where
  "step (CallSchedule d) s = Some (scheduleAction d (newTask s))"
| "step (CallExecute d) s = Some (executeAction d [] (newTask s))"
| "step CallCancelAll s = Some (cancelAll (newTask s))"
| "step (Complete i) s = complete i (newTask s)"
| "step Microtask s = microtask s"
| "step (ManagerTimer i) s = managerTimer i (newTask s)"

fun run :: "event list \<Rightarrow> scheduler \<Rightarrow> scheduler option" where
  "run [] s = Some s"
| "run (e # es) s = (case step e s of None \<Rightarrow> None | Some s1 \<Rightarrow> run es s1)"

section \<open>Observations on runs\<close>

text \<open>
  The descriptors which a trace shows to have been pushed on the queue, and those it shows
  to have been taken from it, in the order of the trace.
\<close>

fun arrivals :: "trace_event list \<Rightarrow> action list" where
  "arrivals [] = []"
| "arrivals (Queued d # es) = d # arrivals es"
| "arrivals (e # es) = arrivals es"

fun departures :: "trace_event list \<Rightarrow> action list" where
  "departures [] = []"
| "departures (Dequeued d # es) = d # departures es"
| "departures (e # es) = departures es"

text \<open>
  The queue discipline read off a trace: the descriptors taken from the queue so far,
  followed by those still in the queue, are the descriptors pushed on it, in that order.
\<close>

definition fifo :: "scheduler \<Rightarrow> bool" where
  "fifo s \<longleftrightarrow> arrivals (trace s) = departures (trace s) @ actionQueue s"

text \<open>A descriptor together with every descriptor nested in it.\<close>

fun acts :: "action \<Rightarrow> action set" where
  "acts (Composite subs par) = insert (Composite subs par) (\<Union> (set (map acts subs)))"
| "acts a = {a}"

text \<open>The descriptors entered within one call of \<open>executeAction\<close>, in the order of entry.\<close>

fun launched :: "action \<Rightarrow> action list" where
  "launched (Composite [] par) = [Composite [] par]"
| "launched (Composite (subAction # rest) False) =
     Composite (subAction # rest) False # launched subAction"
| "launched (Composite (subAction # rest) True) =
     Composite (subAction # rest) True # concat (map launched (subAction # rest))"
| "launched a = [a]"

text \<open>Every stack of frames that the scheduler holds.\<close>

definition conts :: "scheduler \<Rightarrow> frame list set" where
  "conts s = snd ` set (pending s) \<union> set (microtasks s) \<union> snd ` set (joins s)"

section \<open>Concrete states\<close>

text \<open>
  A clip table as the loader fills it, the manager as constructed, the manager right after
  the start-up call \<open>playAction('idle', 0.5, true)\<close>, and the same once its cross-fade
  timer has fired.
\<close>

definition loadedClip :: "loop_mode \<Rightarrow> clip_action" where
  "loadedClip lm =
     \<lparr>ca_time = 0, ca_loop = lm, ca_clampWhenFinished = (lm = LoopOnce), ca_weight = 1,
      ca_timeScale = 1, ca_enabled = True, ca_running = False, ca_fade = NoFade,
      ca_clipDuration = Some 1\<rparr>"

definition newManager :: manager where
  "newManager =
     \<lparr>animations = [''idle'' \<mapsto> loadedClip LoopRepeat, ''walk'' \<mapsto> loadedClip LoopRepeat,
                    ''run'' \<mapsto> loadedClip LoopRepeat, ''jump'' \<mapsto> loadedClip LoopOnce,
                    ''paw_attack'' \<mapsto> loadedClip LoopOnce, ''bite'' \<mapsto> loadedClip LoopOnce],
      activeAction = None, isTransitioning = False, pendingTimeouts = [], timers = [],
      finishedListeners = [], warnings = []\<rparr>"

definition fadingManager :: manager where
  "fadingManager = snd (playAction ''idle'' 0.5 True newManager)"

definition idleManager :: manager where
  "idleManager = runManagerCallback ClearTransitioning (fadingManager\<lparr>timers := []\<rparr>)"

text \<open>A layer whose character has a head and a tail but no ear bones, and one set of draws.\<close>

definition exampleLayer :: layer where
  "exampleLayer =
     \<lparr>layerCat =
        \<lparr>bones = \<lparr>head = Some \<lparr>ex = 0, ey = 0, ez = 0\<rparr>,
                   tail = Some \<lparr>ex = 0.1, ey = 0.2, ez = 0.3\<rparr>,
                   earLeft = None, earRight = None\<rparr>,
         mood = ''neutral'', catState = ''idle'', isTalking = False, talkingIntensity = 0,
         modelScale = None, animationManager = None, contextBusy = False, sideEffects = []\<rparr>,
      time = 0,
      boneBaselines = Map.empty,
      originalModelScale = None,
      tailAnim = \<lparr>baseIntensity = 0.2, currentIntensity = 0.2, tailPhase = pi / 2 - 1 / 60,
                  tailSpeed = 1.0\<rparr>,
      earAnim = \<lparr>leftPhase = 0, rightPhase = 0, twitchProbability = 0.02\<rparr>,
      breathing = \<lparr>breathPhase = 0, breathIntensity = 0.01, breathRate = 1.0\<rparr>,
      frameCallbacks = []\<rparr>"

definition exampleDraws :: draws where
  "exampleDraws = \<lparr>tailFlickRoll = 0.5, flickIntensityRoll = 0.5, flickElapsed = 0,
                    earTwitchRoll = 0.5, earSideRoll = 0.5, twitchElapsed = 0\<rparr>"

definition movedBones :: bones where
  "movedBones = \<lparr>head = Some \<lparr>ex = 1, ey = 2, ez = 3\<rparr>, tail = Some \<lparr>ex = 4, ey = 5, ez = 6\<rparr>,
                  earLeft = None, earRight = None\<rparr>"

definition exampleSelector :: selector where
  "exampleSelector = \<lparr>selMappings = contextMappings, isPerformingContextualAction = False\<rparr>"

text \<open>
  The scheduler of a character that stands at the origin, idle, with nothing queued and
  nothing in flight, and three one-shot descriptors.
\<close>

definition idleScheduler :: scheduler where
  "idleScheduler =
     \<lparr>isExecuting = False, actionQueue = [], clips = idleManager,
      motionCtl = \<lparr>position = (0, 0, 0), orientation = \<lparr>qx = 0, qy = 0, qz = 0, qw = 1\<rparr>,
                   isMoving = False, isRotating = False\<rparr>,
      cameraPosition = (0, 1, 5), contactShadow = None,
      pending = [], microtasks = [], joins = [],
      rand = (\<lambda>_. 1 / 2), drawn = 0, trace = [], task = 0\<rparr>"

definition jumpShot :: action where
  "jumpShot = Oneshot ''jump'' (Some 800)"

definition pawShot :: action where
  "pawShot = Oneshot ''paw_attack'' (Some 500)"

definition biteShot :: action where
  "biteShot = Oneshot ''bite'' None"

definition walkTo :: action where
  "walkTo = Locomotion ''walk'' (Some (1, 0, 1)) None"

text \<open>The busy scheduler with three descriptors in its queue.\<close>

definition threeQueued :: scheduler where
  "threeQueued = idleScheduler\<lparr>isExecuting := True, actionQueue := [jumpShot, pawShot, biteShot]\<rparr>"

section \<open>Properties of the clip blend manager\<close>

text \<open>
  Claim C6, as amended. A call of \<open>playAction\<close> while a cross-fade is in progress returns
  \<open>null\<close> and leaves the whole manager as it was: the active action is unchanged, nothing
  is queued (no timer, no listener), and no warning is logged either.
\<close>

theorem playAction_rejected_while_transitioning:
  "isTransitioning m \<Longrightarrow> playAction name d lp m = (None, m)"
  by (simp add: playAction_def)

lemma fadingManager_facts:
  "isTransitioning fadingManager" "activeAction fadingManager = Some ''idle''"
  "animations fadingManager ''idle'' \<noteq> None" "warnings fadingManager = []"
  by (simp_all add: fadingManager_def newManager_def playAction_def Let_def clearTimeouts_def
        startFade_def)

lemma idleManager_facts:
  "\<not> isTransitioning idleManager" "activeAction idleManager = Some ''idle''"
  "animations idleManager ''idle'' \<noteq> None"
  by (simp_all add: idleManager_def runManagerCallback_def fadingManager_def newManager_def
        playAction_def Let_def clearTimeouts_def startFade_def)

theorem playAction_rejected_while_transitioning_witness:
  "isTransitioning fadingManager
   \<and> playAction ''walk'' 0.5 True fadingManager = (None, fadingManager)"
  using playAction_rejected_while_transitioning [of fadingManager "''walk''" "0.5" True]
  by (simp add: fadingManager_facts)

text \<open>
  Claim C6 as stated has the rejected call log a warning. During the start-up cross-fade a
  request for the walk clip is rejected and the list of warnings stays empty.
\<close>

theorem playAction_transitioning_logs_nothing:
  "isTransitioning fadingManager
   \<and> fst (playAction ''walk'' 0.5 True fadingManager) = None
   \<and> warnings (snd (playAction ''walk'' 0.5 True fadingManager)) = []"
  by (simp add: playAction_def fadingManager_facts)

text \<open>
  Claim C9, as amended. A call of \<open>playAction\<close> for the clip that is already active changes
  nothing; it returns the active action when no cross-fade is in progress, and \<open>null\<close> when
  one is.
\<close>

theorem playAction_active_clip_noop:
  "animations m name \<noteq> None \<Longrightarrow> activeAction m = Some name \<Longrightarrow>
   playAction name d lp m = (if isTransitioning m then None else activeAction m, m)"
  by (auto simp: playAction_def)

theorem playAction_active_clip_noop_witness:
  "animations idleManager ''idle'' \<noteq> None \<and> activeAction idleManager = Some ''idle''
   \<and> playAction ''idle'' 0.5 True idleManager = (Some ''idle'', idleManager)"
  using playAction_active_clip_noop [of idleManager "''idle''" "0.5" True]
  by (simp add: idleManager_facts)

text \<open>
  Claim C9 as stated has every such call return the active action. During the start-up
  cross-fade the idle clip is the active one, and a second request for it returns \<open>null\<close>.
\<close>

theorem playAction_active_clip_returns_null_in_transition:
  "animations fadingManager ''idle'' \<noteq> None \<and> activeAction fadingManager = Some ''idle''
   \<and> fst (playAction ''idle'' 0.5 True fadingManager) \<noteq> activeAction fadingManager"
  by (simp add: playAction_def fadingManager_facts)

section \<open>Properties of the rotation controller\<close>













section \<open>Properties of the behaviour state machine\<close>

text \<open>
  Claim C10. For every state \<open>s\<close>, \<open>changeState(s)\<close> called while \<open>s\<close> is the current state
  returns at once, without an error and with the machine and the character as they were:
  \<open>currentState\<close>, \<open>previousState\<close>, \<open>stateStartTime\<close>, \<open>stateData\<close> and the mood are
  unchanged, and no entry action has run (the animation manager and the recorded timers and
  tweens are those from before the call).
\<close>

theorem changeState_same_state_no_effect:
  "changeState (currentState s) data now r s = (None, s)"
  by (simp add: changeState_def)

section \<open>Properties of the procedural layer\<close>

lemma cache_other: "key \<noteq> key' \<Longrightarrow> cache key bone m key' = m key'"
  by (simp add: cache_def split: option.splits)

lemma cache_same: "cache key bone m key = (case bone of None \<Rightarrow> m key | Some r \<Rightarrow> Some r)"
  by (simp add: cache_def split: option.splits)

lemma restore_present:
  "(b' = None \<longleftrightarrow> b = None) \<Longrightarrow> restore b' (cache key b m key) = b"
  by (cases b; cases b') (simp_all add: restore_def cache_def)

lemma cached_keys:
  "boneBaselines (cacheBaselines l) ''head'' = cache ''head'' (head (bones (layerCat l))) (boneBaselines l) ''head''"
  "boneBaselines (cacheBaselines l) ''tail'' = cache ''tail'' (tail (bones (layerCat l))) (boneBaselines l) ''tail''"
  "boneBaselines (cacheBaselines l) ''leftEar'' = cache ''leftEar'' (earLeft (bones (layerCat l))) (boneBaselines l) ''leftEar''"
  "boneBaselines (cacheBaselines l) ''rightEar'' = cache ''rightEar'' (earRight (bones (layerCat l))) (boneBaselines l) ''rightEar''"
  by (simp_all add: cacheBaselines_def Let_def cache_other cache_same split: option.split)

lemma cacheBaselines_layerCat: "layerCat (cacheBaselines l) = layerCat l"
  by (simp add: cacheBaselines_def Let_def)

lemma resetBaselines_forgets_bones:
  assumes "head b' = None \<longleftrightarrow> head (bones (layerCat l)) = None"
    and "tail b' = None \<longleftrightarrow> tail (bones (layerCat l)) = None"
    and "earLeft b' = None \<longleftrightarrow> earLeft (bones (layerCat l)) = None"
    and "earRight b' = None \<longleftrightarrow> earRight (bones (layerCat l)) = None"
  shows "resetBaselines ((cacheBaselines l)\<lparr>layerCat := (layerCat (cacheBaselines l))\<lparr>bones := b'\<rparr>\<rparr>)
         = cacheBaselines l"
proof -
  let ?l0 = "cacheBaselines l"
  have "b'\<lparr>head := restore (head b') (boneBaselines ?l0 ''head''),
           tail := restore (tail b') (boneBaselines ?l0 ''tail''),
           earLeft := restore (earLeft b') (boneBaselines ?l0 ''leftEar''),
           earRight := restore (earRight b') (boneBaselines ?l0 ''rightEar'')\<rparr>
        = bones (layerCat l)"
    by (rule bones.equality) (simp_all add: cached_keys restore_present assms)
  then show ?thesis
    by (simp add: resetBaselines_def Let_def cacheBaselines_layerCat)
qed

lemma resetBaselines_time: "resetBaselines (l\<lparr>time := t\<rparr>) = (resetBaselines l)\<lparr>time := t\<rparr>"
  by (simp add: resetBaselines_def Let_def)

lemma resetBaselines_after_cache: "resetBaselines (cacheBaselines l) = cacheBaselines l"
proof -
  have "(cacheBaselines l)\<lparr>layerCat := (layerCat (cacheBaselines l))\<lparr>bones := bones (layerCat l)\<rparr>\<rparr>
        = cacheBaselines l"
    by (simp add: cacheBaselines_def Let_def)
  then show ?thesis
    using resetBaselines_forgets_bones [of "bones (layerCat l)" l] by simp
qed

lemma update_forgets_bones:
  assumes "head b' = None \<longleftrightarrow> head (bones (layerCat l)) = None"
    and "tail b' = None \<longleftrightarrow> tail (bones (layerCat l)) = None"
    and "earLeft b' = None \<longleftrightarrow> earLeft (bones (layerCat l)) = None"
    and "earRight b' = None \<longleftrightarrow> earRight (bones (layerCat l)) = None"
  shows "update r d ((cacheBaselines l)\<lparr>layerCat := (layerCat (cacheBaselines l))\<lparr>bones := b'\<rparr>\<rparr>)
         = update r d (cacheBaselines l)"
proof -
  let ?l0 = "cacheBaselines l"
  let ?lb = "?l0\<lparr>layerCat := (layerCat ?l0)\<lparr>bones := b'\<rparr>\<rparr>"
  have "resetBaselines (?lb\<lparr>time := time ?lb + d\<rparr>) = (resetBaselines ?lb)\<lparr>time := time ?lb + d\<rparr>"
    by (rule resetBaselines_time)
  also have "\<dots> = ?l0\<lparr>time := time ?l0 + d\<rparr>"
    using resetBaselines_forgets_bones [OF assms] by simp
  also have "\<dots> = resetBaselines (?l0\<lparr>time := time ?l0 + d\<rparr>)"
    by (simp add: resetBaselines_time resetBaselines_after_cache)
  finally show ?thesis by (simp add: update_def)
qed

lemma ears_frame:
  "tail (bones (layerCat (applyEarMotions r d l))) = tail (bones (layerCat l))"
  "tailAnim (applyEarMotions r d l) = tailAnim l"
  "boneBaselines (applyEarMotions r d l) = boneBaselines l"
  by (simp_all add: applyEarMotions_def performEarTwitch_def curiousEars_def Let_def
        split: option.split)

lemma breathing_frame:
  "tail (bones (layerCat (applyBreathing d l))) = tail (bones (layerCat l))"
  "tailAnim (applyBreathing d l) = tailAnim l"
  "boneBaselines (applyBreathing d l) = boneBaselines l"
  by (simp_all add: applyBreathing_def Let_def split: option.split prod.split)

lemma talking_frame:
  "tail (bones (layerCat (applyTalkingBehavior d l))) = tail (bones (layerCat l))"
  "tailAnim (applyTalkingBehavior d l) = tailAnim l"
  "boneBaselines (applyTalkingBehavior d l) = boneBaselines l"
  by (simp_all add: applyTalkingBehavior_def Let_def split: option.split)

lemma mood_frame:
  "tail (bones (layerCat (applyMoodInfluences d l))) = tail (bones (layerCat l))"
  "tailAnim (applyMoodInfluences d l) = tailAnim l"
  "boneBaselines (applyMoodInfluences d l) = boneBaselines l"
  by (simp_all add: applyMoodInfluences_def Let_def split: option.split)

lemma tail_frame:
  "boneBaselines (applyTailMotion r d l) = boneBaselines l"
  by (simp add: applyTailMotion_def performTailFlick_def Let_def split: option.split)

lemma reset_frame:
  "boneBaselines (resetBaselines l) = boneBaselines l"
  by (simp add: resetBaselines_def Let_def)

lemma update_baselines: "boneBaselines (update r d l) = boneBaselines l"
  by (simp add: update_def ears_frame breathing_frame talking_frame mood_frame tail_frame reset_frame)

lemma tail_after_tailMotion:
  assumes "tail (bones (layerCat l)) = Some rot" and "\<not> tailFlickRoll r < 0.005"
  shows "tail (bones (layerCat (applyTailMotion r d l)))
         = Some (rot\<lparr>ey := ey (baselineOr (boneBaselines l) ''tail'')
                          + sin (tailPhase (tailAnim (applyTailMotion r d l)))
                            * currentIntensity (tailAnim (applyTailMotion r d l)),
                    ez := ez (baselineOr (boneBaselines l) ''tail'')
                          + cos (tailPhase (tailAnim (applyTailMotion r d l)) * 0.7)
                            * currentIntensity (tailAnim (applyTailMotion r d l)) * 0.5\<rparr>)"
  using assms by (simp add: applyTailMotion_def Let_def)

lemma tail_after_update:
  assumes "tail (bones (layerCat l)) = Some base" and "\<not> tailFlickRoll r < 0.005"
  shows "tail (bones (layerCat (update r d (cacheBaselines l))))
         = Some (base\<lparr>ey := ey base
                          + sin (tailPhase (tailAnim (update r d (cacheBaselines l))))
                            * currentIntensity (tailAnim (update r d (cacheBaselines l))),
                    ez := ez base
                          + cos (tailPhase (tailAnim (update r d (cacheBaselines l))) * 0.7)
                            * currentIntensity (tailAnim (update r d (cacheBaselines l))) * 0.5\<rparr>)"
proof -
  let ?l0 = "cacheBaselines l"
  let ?l1 = "?l0\<lparr>time := time ?l0 + d\<rparr>"
  have r: "resetBaselines ?l1 = ?l1"
    by (simp add: resetBaselines_time resetBaselines_after_cache)
  have t: "tail (bones (layerCat ?l1)) = Some base"
    using assms(1) by (simp add: cacheBaselines_layerCat)
  have b: "baselineOr (boneBaselines ?l0) ''tail'' = base"
    using assms(1) by (simp add: baselineOr_def cached_keys cache_same)
  show ?thesis
    using tail_after_tailMotion [OF t assms(2), of d]
    by (simp add: update_def r b ears_frame breathing_frame talking_frame mood_frame)
qed

text \<open>
  Claim C3, as amended. Right after \<open>cacheBaselines\<close> the restoring step of a tick leaves
  every bone rotation unchanged. The tick as a whole then sets each affected bone to its
  cached baseline plus the offset of this tick (for the tail, when no flick starts, the
  baseline with the sine and cosine offsets added to its y and z angles): whatever rotations
  the bones hold when the tick starts, the state after the tick is the one reached from the
  baseline pose, so an offset never adds to the offset of an earlier tick. The baselines
  themselves are not changed by a tick.
\<close>

theorem tick_offsets_from_baselines:
  assumes "head b' = None \<longleftrightarrow> head (bones (layerCat l)) = None"
    and "tail b' = None \<longleftrightarrow> tail (bones (layerCat l)) = None"
    and "earLeft b' = None \<longleftrightarrow> earLeft (bones (layerCat l)) = None"
    and "earRight b' = None \<longleftrightarrow> earRight (bones (layerCat l)) = None"
  shows "resetBaselines (cacheBaselines l) = cacheBaselines l
       \<and> bones (layerCat (cacheBaselines l)) = bones (layerCat l)
       \<and> update r d ((cacheBaselines l)\<lparr>layerCat := (layerCat (cacheBaselines l))\<lparr>bones := b'\<rparr>\<rparr>)
           = update r d (cacheBaselines l)
       \<and> boneBaselines (update r d (cacheBaselines l)) = boneBaselines (cacheBaselines l)
       \<and> (\<forall>base. tail (bones (layerCat l)) = Some base \<and> \<not> tailFlickRoll r < 0.005 \<longrightarrow>
            tail (bones (layerCat (update r d (cacheBaselines l))))
            = Some (base\<lparr>ey := ey base
                          + sin (tailPhase (tailAnim (update r d (cacheBaselines l))))
                            * currentIntensity (tailAnim (update r d (cacheBaselines l))),
                    ez := ez base
                          + cos (tailPhase (tailAnim (update r d (cacheBaselines l))) * 0.7)
                            * currentIntensity (tailAnim (update r d (cacheBaselines l))) * 0.5\<rparr>))"
  using update_forgets_bones [OF assms] tail_after_update
  by (simp add: resetBaselines_after_cache cacheBaselines_layerCat update_baselines)

lemma example_tail:
  "tail (bones (layerCat (update exampleDraws (1 / 60) (cacheBaselines exampleLayer))))
    = Some \<lparr>ex = 0.1, ey = 0.4, ez = 0.3 + cos (pi / 2 * 0.7) * 0.2 * 0.5\<rparr>"
  by (simp add: update_def applyMoodInfluences_def applyTalkingBehavior_def applyBreathing_def
      applyEarMotions_def applyTailMotion_def resetBaselines_def cacheBaselines_def Let_def
      exampleLayer_def exampleDraws_def cache_def restore_def tailTarget_def lerp_def baselineOr_def)

text \<open>
  Claim C3 as stated has \<open>cacheBaselines\<close> followed by one tick leave the bone rotations
  unchanged. With a neutral mood, a tail phase that reaches \<open>\<pi>/2\<close> in this tick and no
  flick, the tick moves the y angle of the tail from 0.2 to 0.4.
\<close>

theorem tick_after_cache_moves_tail:
  "tail (bones (layerCat (update exampleDraws (1 / 60) (cacheBaselines exampleLayer))))
   \<noteq> tail (bones (layerCat (cacheBaselines exampleLayer)))"
proof -
  have "tail (bones (layerCat (cacheBaselines exampleLayer))) = Some \<lparr>ex = 0.1, ey = 0.2, ez = 0.3\<rparr>"
    by (simp add: cacheBaselines_def Let_def exampleLayer_def)
  then show ?thesis by (simp add: example_tail)
qed

theorem tick_offsets_from_baselines_witness:
  "update exampleDraws (1 / 60)
     ((cacheBaselines exampleLayer)\<lparr>layerCat := (layerCat (cacheBaselines exampleLayer))\<lparr>bones := movedBones\<rparr>\<rparr>)
   = update exampleDraws (1 / 60) (cacheBaselines exampleLayer)
   \<and> tail (bones (layerCat (update exampleDraws (1 / 60) (cacheBaselines exampleLayer))))
     = Some \<lparr>ex = 0.1,
             ey = 0.2 + sin (tailPhase (tailAnim (update exampleDraws (1 / 60) (cacheBaselines exampleLayer))))
                        * currentIntensity (tailAnim (update exampleDraws (1 / 60) (cacheBaselines exampleLayer))),
             ez = 0.3 + cos (tailPhase (tailAnim (update exampleDraws (1 / 60) (cacheBaselines exampleLayer))) * 0.7)
                        * currentIntensity (tailAnim (update exampleDraws (1 / 60) (cacheBaselines exampleLayer))) * 0.5\<rparr>"
proof -
  have p: "head movedBones = None \<longleftrightarrow> head (bones (layerCat exampleLayer)) = None"
    "tail movedBones = None \<longleftrightarrow> tail (bones (layerCat exampleLayer)) = None"
    "earLeft movedBones = None \<longleftrightarrow> earLeft (bones (layerCat exampleLayer)) = None"
    "earRight movedBones = None \<longleftrightarrow> earRight (bones (layerCat exampleLayer)) = None"
    by (simp_all add: movedBones_def exampleLayer_def)
  have t: "tail (bones (layerCat exampleLayer)) = Some \<lparr>ex = 0.1, ey = 0.2, ez = 0.3\<rparr>"
    "\<not> tailFlickRoll exampleDraws < 0.005"
    by (simp_all add: exampleLayer_def exampleDraws_def)
  show ?thesis
    using tick_offsets_from_baselines [OF p, of exampleDraws "1 / 60"] t
    by simp
qed

section \<open>Properties of the context selector\<close>

lemma includes_sublist: "includes' str kw \<longleftrightarrow> sublist kw str"
  by (induction str) (simp_all add: sublist_Cons_right)

lemma fold_count:
  "fold (\<lambda>x score. if P x then f score else score) xs a = (f ^^ length (filter P xs)) a"
  by (induction xs arbitrary: a) (simp_all add: funpow_swap1)

lemma funpow_add_real: "((\<lambda>score. score + c) ^^ n) (a::real) = a + c * real n"
  by (induction n) (simp_all add: algebra_simps)

lemma scoreMapping_closed:
  "scoreMapping ar str m roll =
     mul ar (((\<lambda>score. add ar score (lit ar 1))
                ^^ length (filter (\<lambda>e. sublist e str) (emotions m)))
              (((\<lambda>score. add ar score (lit ar 2))
                  ^^ length (filter (\<lambda>kw. sublist kw str) (keywords' m)))
                 (lit ar 0)))
            (mul ar (lit ar (weight m)) (add ar (lit ar 0.8) (mul ar roll (lit ar 0.4))))"
  by (simp add: scoreMapping_def jitter_def Let_def fold_count includes_sublist)

lemma scoreMapping_real:
  "scoreMapping realArith str m roll =
     (2 * real (length (filter (\<lambda>kw. sublist kw str) (keywords' m)))
      + real (length (filter (\<lambda>e. sublist e str) (emotions m))))
     * (weight m * (0.8 + roll * 0.4))"
  by (simp add: scoreMapping_closed realArith_def funpow_add_real)

lemma matchLoop_char:
  "matchLoop ar str rolls n ms (b, h) = (b', h') \<Longrightarrow>
   (if \<exists>j<length ms. scoreMapping ar str (ms ! j) (rolls (n + j)) > h
                     \<and> scoreMapping ar str (ms ! j) (rolls (n + j)) > lit ar 1.5
    then \<exists>i<length ms. b' = Some (ms ! i) \<and> h' = scoreMapping ar str (ms ! i) (rolls (n + i))
           \<and> h' > h \<and> h' > lit ar 1.5
           \<and> (\<forall>j<length ms. scoreMapping ar str (ms ! j) (rolls (n + j)) \<le> h')
           \<and> (\<forall>j<i. scoreMapping ar str (ms ! j) (rolls (n + j)) < h')
    else b' = b \<and> h' = h)"
proof (induction ms arbitrary: n b h)
  case Nil
  then show ?case by simp
next
  case (Cons m ms)
  let ?t = "lit ar 1.5"
  let ?s = "scoreMapping ar str m (rolls n)"
  let ?S = "\<lambda>j. scoreMapping ar str (ms ! j) (rolls (Suc n + j))"
  show ?case
  proof (cases "?s > h \<and> ?s > ?t")
    case True
    with Cons.prems have loop: "matchLoop ar str rolls (Suc n) ms (Some m, ?s) = (b', h')"
      by (simp add: Let_def)
    note ih = Cons.IH[OF loop]
    show ?thesis
    proof (cases "\<exists>j<length ms. ?S j > ?s \<and> ?S j > ?t")
      case ex: True
      with ih obtain i where i: "i < length ms" "b' = Some (ms ! i)" "h' = ?S i" "h' > ?s" "h' > ?t"
        "\<forall>j<length ms. ?S j \<le> h'" "\<forall>j<i. ?S j < h'"
        by auto
      have "Suc i < length (m # ms)" using i by simp
      moreover have "b' = Some ((m # ms) ! Suc i)" using i by simp
      moreover have "h' = scoreMapping ar str ((m # ms) ! Suc i) (rolls (n + Suc i))" using i by simp
      moreover have "h' > h" using i(4) True by (meson less_trans)
      moreover have "\<forall>j<length (m # ms). scoreMapping ar str ((m # ms) ! j) (rolls (n + j)) \<le> h'"
        using i by (auto simp: less_Suc_eq_0_disj)
      moreover have "\<forall>j<Suc i. scoreMapping ar str ((m # ms) ! j) (rolls (n + j)) < h'"
        using i by (auto simp: less_Suc_eq_0_disj)
      moreover have "\<exists>j<length (m # ms). scoreMapping ar str ((m # ms) ! j) (rolls (n + j)) > h
                     \<and> scoreMapping ar str ((m # ms) ! j) (rolls (n + j)) > ?t"
        using True by (intro exI[of _ 0]) simp
      ultimately show ?thesis using i(5) by (auto simp del: nth_Cons_Suc)
    next
      case nex: False
      with ih have r: "b' = Some m" "h' = ?s" by auto
      have tl: "\<forall>j<length ms. ?S j \<le> ?s"
      proof (intro allI impI)
        fix j assume "j < length ms"
        with nex have "\<not> (?S j > ?s \<and> ?S j > ?t)" by blast
        then show "?S j \<le> ?s" using True by (meson less_trans not_less)
      qed
      have "\<forall>j<length (m # ms). scoreMapping ar str ((m # ms) ! j) (rolls (n + j)) \<le> h'"
        using tl r by (auto simp: less_Suc_eq_0_disj)
      moreover have "\<exists>j<length (m # ms). scoreMapping ar str ((m # ms) ! j) (rolls (n + j)) > h
                     \<and> scoreMapping ar str ((m # ms) ! j) (rolls (n + j)) > ?t"
        using True by (intro exI[of _ 0]) simp
      ultimately show ?thesis using r True
        by (auto intro!: exI[of _ 0])
    qed
  next
    case False
    with Cons.prems have loop: "matchLoop ar str rolls (Suc n) ms (b, h) = (b', h')"
      by (auto simp: Let_def)
    note ih = Cons.IH[OF loop]
    show ?thesis
    proof (cases "\<exists>j<length ms. ?S j > h \<and> ?S j > ?t")
      case ex: True
      with ih obtain i where i: "i < length ms" "b' = Some (ms ! i)" "h' = ?S i" "h' > h" "h' > ?t"
        "\<forall>j<length ms. ?S j \<le> h'" "\<forall>j<i. ?S j < h'"
        by auto
      have s: "?s < h'" using False i(4,5) by (meson not_less le_less_trans)
      have "Suc i < length (m # ms)" using i by simp
      moreover have "b' = Some ((m # ms) ! Suc i)" using i by simp
      moreover have "h' = scoreMapping ar str ((m # ms) ! Suc i) (rolls (n + Suc i))" using i by simp
      moreover have "\<forall>j<length (m # ms). scoreMapping ar str ((m # ms) ! j) (rolls (n + j)) \<le> h'"
        using i s by (auto simp: less_Suc_eq_0_disj)
      moreover have "\<forall>j<Suc i. scoreMapping ar str ((m # ms) ! j) (rolls (n + j)) < h'"
        using i s by (auto simp: less_Suc_eq_0_disj)
      moreover have "\<exists>j<length (m # ms). scoreMapping ar str ((m # ms) ! j) (rolls (n + j)) > h
                     \<and> scoreMapping ar str ((m # ms) ! j) (rolls (n + j)) > ?t"
        using ex by (auto simp: less_Suc_eq_0_disj)
      ultimately show ?thesis using i(4,5) by (auto simp del: nth_Cons_Suc)
    next
      case nex: False
      with ih have r: "b' = b" "h' = h" by auto
      have "\<not> (\<exists>j<length (m # ms). scoreMapping ar str ((m # ms) ! j) (rolls (n + j)) > h
                     \<and> scoreMapping ar str ((m # ms) ! j) (rolls (n + j)) > ?t)"
      proof
        assume "\<exists>j<length (m # ms). scoreMapping ar str ((m # ms) ! j) (rolls (n + j)) > h
                     \<and> scoreMapping ar str ((m # ms) ! j) (rolls (n + j)) > ?t"
        then obtain j where j: "j < length (m # ms)"
          "scoreMapping ar str ((m # ms) ! j) (rolls (n + j)) > h"
          "scoreMapping ar str ((m # ms) ! j) (rolls (n + j)) > ?t" by blast
        show False
        proof (cases j)
          case 0
          with j False show False by simp
        next
          case (Suc j')
          with j have "j' < length ms" "?S j' > h" "?S j' > ?t" by simp_all
          with nex show False by blast
        qed
      qed
      then show ?thesis using r by simp
    qed
  qed
qed

lemma findBest_char:
  assumes z: "lit ar 0 \<le> lit ar 1.5"
  shows "(findBestContextMatch ar ms str rolls = None
      \<longleftrightarrow> (\<forall>i<length ms. scoreMapping ar str (ms ! i) (rolls i) \<le> lit ar 1.5))
   \<and> (\<forall>m. findBestContextMatch ar ms str rolls = Some m \<longrightarrow>
        (\<exists>i<length ms. m = ms ! i \<and> scoreMapping ar str (ms ! i) (rolls i) > lit ar 1.5
           \<and> (\<forall>j<length ms. scoreMapping ar str (ms ! j) (rolls j)
                               \<le> scoreMapping ar str (ms ! i) (rolls i))
           \<and> (\<forall>j<i. scoreMapping ar str (ms ! j) (rolls j)
                       < scoreMapping ar str (ms ! i) (rolls i))))"
proof -
  let ?t = "lit ar 1.5"
  obtain b' h' where loop: "matchLoop ar str rolls 0 ms (None, lit ar 0) = (b', h')"
    by (cases "matchLoop ar str rolls 0 ms (None, lit ar 0)") auto
  have fb: "findBestContextMatch ar ms str rolls = b'"
    by (simp add: findBestContextMatch_def loop)
  note ch = matchLoop_char [OF loop]
  show ?thesis
  proof (cases "\<exists>j<length ms. scoreMapping ar str (ms ! j) (rolls j) > ?t")
    case True
    then obtain j where j: "j < length ms" "scoreMapping ar str (ms ! j) (rolls j) > ?t"
      by blast
    then have "scoreMapping ar str (ms ! j) (rolls j) > lit ar 0"
      using z by (meson le_less_trans)
    with j have "\<exists>j<length ms. scoreMapping ar str (ms ! j) (rolls (0 + j)) > lit ar 0
                 \<and> scoreMapping ar str (ms ! j) (rolls (0 + j)) > ?t"
      by auto
    with ch obtain i where i: "i < length ms" "b' = Some (ms ! i)"
      "h' = scoreMapping ar str (ms ! i) (rolls i)" "h' > ?t"
      "\<forall>j<length ms. scoreMapping ar str (ms ! j) (rolls j) \<le> h'"
      "\<forall>j<i. scoreMapping ar str (ms ! j) (rolls j) < h'"
      by auto
    have "\<not> (\<forall>i<length ms. scoreMapping ar str (ms ! i) (rolls i) \<le> ?t)"
      using True by (auto simp: not_le)
    then show ?thesis using i fb by auto
  next
    case False
    then have "\<not> (\<exists>j<length ms. scoreMapping ar str (ms ! j) (rolls (0 + j)) > lit ar 0
                 \<and> scoreMapping ar str (ms ! j) (rolls (0 + j)) > ?t)"
      by auto
    with ch have "b' = None" by (simp only: if_False)
    moreover have "\<forall>i<length ms. scoreMapping ar str (ms ! i) (rolls i) \<le> ?t"
    proof (intro allI impI)
      fix i assume "i < length ms"
      with False have "\<not> scoreMapping ar str (ms ! i) (rolls i) > ?t" by blast
      then show "scoreMapping ar str (ms ! i) (rolls i) \<le> ?t" by (simp only: not_less)
    qed
    ultimately show ?thesis using fb by simp
  qed
qed

lemma zero_score:
  assumes "\<forall>w\<in>set (keywords' m @ emotions m). \<not> sublist w str"
  shows "scoreMapping ar str m roll
         = mul ar (lit ar 0) (mul ar (lit ar (weight m)) (jitter ar roll))"
proof -
  have "filter (\<lambda>kw. sublist kw str) (keywords' m) = []"
    "filter (\<lambda>e. sublist e str) (emotions m) = []"
    using assms by (auto simp: filter_empty_conv)
  then show ?thesis by (simp add: scoreMapping_closed jitter_def)
qed

lemma jitter_real: "jitter realArith roll = 0.8 + roll * 0.4"
  by (simp add: jitter_def realArith_def)

lemma jitter_range:
  "0 \<le> roll \<Longrightarrow> roll < 1 \<Longrightarrow> 0.8 \<le> jitter realArith roll \<and> jitter realArith roll < 1.2"
  by (simp add: jitter_real)

lemma jitter_onto:
  assumes "0.8 \<le> x" and "x < 1.2"
  shows "\<exists>roll. 0 \<le> roll \<and> roll < 1 \<and> jitter realArith roll = x"
proof (intro exI conjI)
  show "0 \<le> (x - 0.8) / 0.4" using assms by simp
  show "(x - 0.8) / 0.4 < 1" using assms by simp
  show "jitter realArith ((x - 0.8) / 0.4) = x" by (simp add: jitter_real field_simps)
qed

text \<open>
  Claim C8. \<open>evaluate\<close> joins the two texts and lower-cases them. The score of a mapping
  starts at 0, gains 2 for each of its keywords and then 1 for each of its emotion keywords
  that occurs in the text, and is multiplied by the product of the weight and the jitter
  \<open>0.8 + roll * 0.4\<close>; in exact arithmetic that is (2 per keyword + 1 per emotion keyword)
  times the weight times the jitter, and the jitter takes exactly the values of [0.8, 1.2)
  as the draw ranges over [0, 1). Whatever the arithmetic (so also with the rounding of
  doubles), as long as the literal 0 is not above the literal 1.5: no mapping is chosen
  exactly when no computed score exceeds 1.5; otherwise the chosen mapping has a computed
  score above 1.5 that no other score exceeds, and every mapping before it in the table has
  a strictly smaller score (a tie keeps the first). A busy selector does nothing. A selector
  that is not busy calls the handler of the chosen mapping on the lower-cased text and
  becomes busy when the second draw is below the weight, and a handler is called in no other
  case; when no handler is called the selector is left as it was. When none of the words of
  any mapping occurs in the text (every score is 0 times a factor, which is 0), no handler is
  called and the selector, with its busy flag, is left as it was.
\<close>

theorem evaluate_scores_and_selects:
  "(\<forall>m roll. scoreMapping ar str m roll =
       mul ar (((\<lambda>score. add ar score (lit ar 1))
                  ^^ length (filter (\<lambda>e. sublist e str) (emotions m)))
                (((\<lambda>score. add ar score (lit ar 2))
                    ^^ length (filter (\<lambda>kw. sublist kw str) (keywords' m)))
                   (lit ar 0)))
              (mul ar (lit ar (weight m)) (add ar (lit ar 0.8) (mul ar roll (lit ar 0.4)))))
   \<and> (\<forall>m roll. scoreMapping realArith str m roll =
       (2 * real (length (filter (\<lambda>kw. sublist kw str) (keywords' m)))
        + real (length (filter (\<lambda>e. sublist e str) (emotions m))))
       * (weight m * (0.8 + roll * 0.4)))
   \<and> (\<forall>roll. jitter realArith roll = 0.8 + roll * 0.4)
   \<and> (\<forall>roll. 0 \<le> roll \<and> roll < 1 \<longrightarrow> 0.8 \<le> jitter realArith roll \<and> jitter realArith roll < 1.2)
   \<and> (\<forall>x. 0.8 \<le> x \<and> x < 1.2 \<longrightarrow> (\<exists>roll. 0 \<le> roll \<and> roll < 1 \<and> jitter realArith roll = x))
   \<and> (lit ar 0 \<le> lit ar 1.5 \<longrightarrow>
        (findBestContextMatch ar ms str rolls = None
           \<longleftrightarrow> (\<forall>i<length ms. scoreMapping ar str (ms ! i) (rolls i) \<le> lit ar 1.5))
        \<and> (\<forall>m. findBestContextMatch ar ms str rolls = Some m \<longrightarrow>
             (\<exists>i<length ms. m = ms ! i \<and> scoreMapping ar str (ms ! i) (rolls i) > lit ar 1.5
                \<and> (\<forall>j<length ms. scoreMapping ar str (ms ! j) (rolls j)
                                    \<le> scoreMapping ar str (ms ! i) (rolls i))
                \<and> (\<forall>j<i. scoreMapping ar str (ms ! j) (rolls j)
                            < scoreMapping ar str (ms ! i) (rolls i)))))
   \<and> (\<forall>lower userInput geminiResponse fireRoll sel.
        isPerformingContextualAction sel \<longrightarrow>
        analyzeAndTriggerContextualAction ar lower userInput geminiResponse rolls fireRoll sel
          = (sel, None))
   \<and> (\<forall>lower userInput geminiResponse fireRoll sel m.
        \<not> isPerformingContextualAction sel
        \<and> findBestContextMatch ar (selMappings sel) (lower (userInput @ '' '' @ geminiResponse)) rolls
            = Some m
        \<and> fireRoll < lit ar (weight m) \<longrightarrow>
        analyzeAndTriggerContextualAction ar lower userInput geminiResponse rolls fireRoll sel
          = (sel\<lparr>isPerformingContextualAction := True\<rparr>,
             Some (handler m, lower (userInput @ '' '' @ geminiResponse))))
   \<and> (\<forall>lower userInput geminiResponse fireRoll sel h t.
        snd (analyzeAndTriggerContextualAction ar lower userInput geminiResponse rolls fireRoll sel)
          = Some (h, t) \<longrightarrow>
        \<not> isPerformingContextualAction sel
        \<and> t = lower (userInput @ '' '' @ geminiResponse)
        \<and> (\<exists>m. findBestContextMatch ar (selMappings sel) t rolls = Some m \<and> handler m = h
                 \<and> fireRoll < lit ar (weight m)))
   \<and> (\<forall>lower userInput geminiResponse fireRoll sel.
        snd (analyzeAndTriggerContextualAction ar lower userInput geminiResponse rolls fireRoll sel)
          = None \<longrightarrow>
        fst (analyzeAndTriggerContextualAction ar lower userInput geminiResponse rolls fireRoll sel)
          = sel)
   \<and> (\<forall>lower userInput geminiResponse fireRoll sel.
        lit ar 0 \<le> lit ar 1.5 \<and> (\<forall>y. mul ar (lit ar 0) y = lit ar 0)
        \<and> (\<forall>m\<in>set (selMappings sel). \<forall>w\<in>set (keywords' m @ emotions m).
            \<not> sublist w (lower (userInput @ '' '' @ geminiResponse))) \<longrightarrow>
        analyzeAndTriggerContextualAction ar lower userInput geminiResponse rolls fireRoll sel
          = (sel, None))"
proof -
  have busy: "analyzeAndTriggerContextualAction ar lower userInput geminiResponse rolls fireRoll sel
          = (sel, None)"
    if "isPerformingContextualAction sel"
    for lower userInput geminiResponse fireRoll sel
    using that by (simp add: analyzeAndTriggerContextualAction_def)
  have fires: "analyzeAndTriggerContextualAction ar lower userInput geminiResponse rolls fireRoll sel
          = (sel\<lparr>isPerformingContextualAction := True\<rparr>,
             Some (handler m, lower (userInput @ '' '' @ geminiResponse)))"
    if "\<not> isPerformingContextualAction sel
        \<and> findBestContextMatch ar (selMappings sel) (lower (userInput @ '' '' @ geminiResponse)) rolls
            = Some m
        \<and> fireRoll < lit ar (weight m)"
    for lower userInput geminiResponse fireRoll sel m
    using that by (simp add: analyzeAndTriggerContextualAction_def Let_def)
  have fire: "\<not> isPerformingContextualAction sel
        \<and> t = lower (userInput @ '' '' @ geminiResponse)
        \<and> (\<exists>m. findBestContextMatch ar (selMappings sel) t rolls = Some m \<and> handler m = h
                 \<and> fireRoll < lit ar (weight m))"
    if "snd (analyzeAndTriggerContextualAction ar lower userInput geminiResponse rolls fireRoll sel)
          = Some (h, t)"
    for lower userInput geminiResponse fireRoll sel h t
    using that
    by (auto simp: analyzeAndTriggerContextualAction_def Let_def split: if_splits option.splits)
  have quiet: "fst (analyzeAndTriggerContextualAction ar lower userInput geminiResponse rolls fireRoll sel)
          = sel"
    if "snd (analyzeAndTriggerContextualAction ar lower userInput geminiResponse rolls fireRoll sel)
          = None"
    for lower userInput geminiResponse fireRoll sel
    using that
    by (auto simp: analyzeAndTriggerContextualAction_def Let_def split: if_splits option.splits)
  have zero: "analyzeAndTriggerContextualAction ar lower userInput geminiResponse rolls fireRoll sel
          = (sel, None)"
    if z: "lit ar 0 \<le> lit ar 1.5 \<and> (\<forall>y. mul ar (lit ar 0) y = lit ar 0)
        \<and> (\<forall>m\<in>set (selMappings sel). \<forall>w\<in>set (keywords' m @ emotions m).
            \<not> sublist w (lower (userInput @ '' '' @ geminiResponse)))"
    for lower userInput geminiResponse fireRoll sel
  proof -
    let ?t = "lower (userInput @ '' '' @ geminiResponse)"
    from z have le: "lit ar 0 \<le> lit ar 1.5" and ab: "\<And>y. mul ar (lit ar 0) y = lit ar 0"
      and nw: "\<forall>m\<in>set (selMappings sel). \<forall>w\<in>set (keywords' m @ emotions m). \<not> sublist w ?t"
      by blast+
    have "\<forall>i<length (selMappings sel).
            scoreMapping ar ?t (selMappings sel ! i) (rolls i) \<le> lit ar 1.5"
    proof (intro allI impI)
      fix i assume "i < length (selMappings sel)"
      then have "selMappings sel ! i \<in> set (selMappings sel)" by simp
      with nw have "\<forall>w\<in>set (keywords' (selMappings sel ! i) @ emotions (selMappings sel ! i)).
                      \<not> sublist w ?t"
        by blast
      then have "scoreMapping ar ?t (selMappings sel ! i) (rolls i) = lit ar 0"
        by (simp only: zero_score ab)
      then show "scoreMapping ar ?t (selMappings sel ! i) (rolls i) \<le> lit ar 1.5"
        using le by simp
    qed
    then have "findBestContextMatch ar (selMappings sel) ?t rolls = None"
      using findBest_char [OF le, of "selMappings sel" ?t rolls] by blast
    then show ?thesis
      by (simp add: analyzeAndTriggerContextualAction_def Let_def)
  qed
  have a: "\<forall>m roll. scoreMapping ar str m roll =
       mul ar (((\<lambda>score. add ar score (lit ar 1))
                  ^^ length (filter (\<lambda>e. sublist e str) (emotions m)))
                (((\<lambda>score. add ar score (lit ar 2))
                    ^^ length (filter (\<lambda>kw. sublist kw str) (keywords' m)))
                   (lit ar 0)))
              (mul ar (lit ar (weight m)) (add ar (lit ar 0.8) (mul ar roll (lit ar 0.4))))"
    by (intro allI) (rule scoreMapping_closed)
  have a': "\<forall>m roll. scoreMapping realArith str m roll =
       (2 * real (length (filter (\<lambda>kw. sublist kw str) (keywords' m)))
        + real (length (filter (\<lambda>e. sublist e str) (emotions m))))
       * (weight m * (0.8 + roll * 0.4))"
    by (intro allI) (rule scoreMapping_real)
  have b: "\<forall>roll. jitter realArith roll = 0.8 + roll * 0.4"
    by (intro allI) (rule jitter_real)
  have b': "\<forall>roll. 0 \<le> roll \<and> roll < 1 \<longrightarrow> 0.8 \<le> jitter realArith roll \<and> jitter realArith roll < 1.2"
    using jitter_range by blast
  have b'': "\<forall>x. 0.8 \<le> x \<and> x < 1.2 \<longrightarrow> (\<exists>roll. 0 \<le> roll \<and> roll < 1 \<and> jitter realArith roll = x)"
    using jitter_onto by blast
  have c: "lit ar 0 \<le> lit ar 1.5 \<longrightarrow>
        (findBestContextMatch ar ms str rolls = None
           \<longleftrightarrow> (\<forall>i<length ms. scoreMapping ar str (ms ! i) (rolls i) \<le> lit ar 1.5))
        \<and> (\<forall>m. findBestContextMatch ar ms str rolls = Some m \<longrightarrow>
             (\<exists>i<length ms. m = ms ! i \<and> scoreMapping ar str (ms ! i) (rolls i) > lit ar 1.5
                \<and> (\<forall>j<length ms. scoreMapping ar str (ms ! j) (rolls j)
                                    \<le> scoreMapping ar str (ms ! i) (rolls i))
                \<and> (\<forall>j<i. scoreMapping ar str (ms ! j) (rolls j)
                            < scoreMapping ar str (ms ! i) (rolls i))))"
    using findBest_char [of ar ms str rolls] by (intro impI)
  have d: "\<forall>lower userInput geminiResponse fireRoll sel.
        isPerformingContextualAction sel \<longrightarrow>
        analyzeAndTriggerContextualAction ar lower userInput geminiResponse rolls fireRoll sel
          = (sel, None)"
    using busy by (intro allI impI)
  have d': "\<forall>lower userInput geminiResponse fireRoll sel m.
        \<not> isPerformingContextualAction sel
        \<and> findBestContextMatch ar (selMappings sel) (lower (userInput @ '' '' @ geminiResponse)) rolls
            = Some m
        \<and> fireRoll < lit ar (weight m) \<longrightarrow>
        analyzeAndTriggerContextualAction ar lower userInput geminiResponse rolls fireRoll sel
          = (sel\<lparr>isPerformingContextualAction := True\<rparr>,
             Some (handler m, lower (userInput @ '' '' @ geminiResponse)))"
    using fires by (intro allI impI)
  have e: "\<forall>lower userInput geminiResponse fireRoll sel h t.
        snd (analyzeAndTriggerContextualAction ar lower userInput geminiResponse rolls fireRoll sel)
          = Some (h, t) \<longrightarrow>
        \<not> isPerformingContextualAction sel
        \<and> t = lower (userInput @ '' '' @ geminiResponse)
        \<and> (\<exists>m. findBestContextMatch ar (selMappings sel) t rolls = Some m \<and> handler m = h
                 \<and> fireRoll < lit ar (weight m))"
    using fire by (intro allI impI)
  have e': "\<forall>lower userInput geminiResponse fireRoll sel.
        snd (analyzeAndTriggerContextualAction ar lower userInput geminiResponse rolls fireRoll sel)
          = None \<longrightarrow>
        fst (analyzeAndTriggerContextualAction ar lower userInput geminiResponse rolls fireRoll sel)
          = sel"
    using quiet by (intro allI impI)
  have f: "\<forall>lower userInput geminiResponse fireRoll sel.
        lit ar 0 \<le> lit ar 1.5 \<and> (\<forall>y. mul ar (lit ar 0) y = lit ar 0)
        \<and> (\<forall>m\<in>set (selMappings sel). \<forall>w\<in>set (keywords' m @ emotions m).
            \<not> sublist w (lower (userInput @ '' '' @ geminiResponse))) \<longrightarrow>
        analyzeAndTriggerContextualAction ar lower userInput geminiResponse rolls fireRoll sel
          = (sel, None)"
    using zero by (intro allI impI)
  from a a' b b' b'' c d d' e e' f show ?thesis by (intro conjI)
qed

lemma walk_text: "asciiLower ''I want to WALK Outside?'' = ''i want to walk outside?''"
  by (simp add: asciiLower_def)

lemma hello_text: "asciiLower ''Hello Hi there'' = ''hello hi there''"
  by (simp add: asciiLower_def)

lemma walk_best:
  "findBestContextMatch realArith contextMappings ''i want to walk outside?'' (\<lambda>_. 1 / 2)
   = Some (contextMappings ! 0)"
  by (simp add: findBestContextMatch_def contextMappings_def scoreMapping_def jitter_def Let_def
        realArith_def)

lemma hello_no_words:
  "\<forall>m\<in>set (selMappings exampleSelector). \<forall>w\<in>set (keywords' m @ emotions m).
      \<not> sublist w (asciiLower (''Hello'' @ '' '' @ ''Hi there''))"
  by (simp add: hello_text exampleSelector_def contextMappings_def includes_sublist [symmetric])

text \<open>
  The theorem in exact arithmetic with every draw 1/2 (a jitter of 1): on the texts
  ``I want to WALK'' and ``Outside?'' the walking mapping scores 3, the others 0, and its
  handler is called; on ``Hello'' and ``Hi there'' nothing is called.
\<close>

theorem evaluate_scores_and_selects_witness:
  "scoreMapping realArith ''i want to walk outside?'' (contextMappings ! 0) (1 / 2) = 3
   \<and> jitter realArith (1 / 2) = 1
   \<and> 0.8 \<le> jitter realArith (1 / 2) \<and> jitter realArith (1 / 2) < 1.2
   \<and> (\<exists>roll. 0 \<le> roll \<and> roll < 1 \<and> jitter realArith roll = 1)
   \<and> analyzeAndTriggerContextualAction realArith asciiLower ''I want to WALK'' ''Outside?''
         (\<lambda>_. 1 / 2) (1 / 2) (exampleSelector\<lparr>isPerformingContextualAction := True\<rparr>)
       = (exampleSelector\<lparr>isPerformingContextualAction := True\<rparr>, None)
   \<and> findBestContextMatch realArith contextMappings ''i want to walk outside?'' (\<lambda>_. 1 / 2)
       = Some (contextMappings ! 0)
   \<and> (\<exists>i<length contextMappings. contextMappings ! 0 = contextMappings ! i
         \<and> scoreMapping realArith ''i want to walk outside?'' (contextMappings ! i) (1 / 2) > 1.5
         \<and> (\<forall>j<length contextMappings.
               scoreMapping realArith ''i want to walk outside?'' (contextMappings ! j) (1 / 2)
               \<le> scoreMapping realArith ''i want to walk outside?'' (contextMappings ! i) (1 / 2))
         \<and> (\<forall>j<i. scoreMapping realArith ''i want to walk outside?'' (contextMappings ! j) (1 / 2)
               < scoreMapping realArith ''i want to walk outside?'' (contextMappings ! i) (1 / 2)))
   \<and> \<not> isPerformingContextualAction exampleSelector
   \<and> analyzeAndTriggerContextualAction realArith asciiLower ''I want to WALK'' ''Outside?''
         (\<lambda>_. 1 / 2) (1 / 2) exampleSelector
       = (exampleSelector\<lparr>isPerformingContextualAction := True\<rparr>,
          Some (''performWalkingContext'', ''i want to walk outside?''))
   \<and> analyzeAndTriggerContextualAction realArith asciiLower ''Hello'' ''Hi there''
         (\<lambda>_. 1 / 2) (1 / 2) exampleSelector
       = (exampleSelector, None)"
proof -
  note t = evaluate_scores_and_selects
             [of realArith "''i want to walk outside?''" contextMappings "\<lambda>_. 1 / 2"]
  note t2 = t [THEN conjunct2, THEN conjunct1]
  note t3 = t [THEN conjunct2, THEN conjunct2, THEN conjunct1]
  note t4 = t [THEN conjunct2, THEN conjunct2, THEN conjunct2, THEN conjunct1]
  note t5 = t [THEN conjunct2, THEN conjunct2, THEN conjunct2, THEN conjunct2, THEN conjunct1]
  note t6 = t [THEN conjunct2, THEN conjunct2, THEN conjunct2, THEN conjunct2, THEN conjunct2,
               THEN conjunct1]
  note t7 = t [THEN conjunct2, THEN conjunct2, THEN conjunct2, THEN conjunct2, THEN conjunct2,
               THEN conjunct2, THEN conjunct1]
  note t8 = t [THEN conjunct2, THEN conjunct2, THEN conjunct2, THEN conjunct2, THEN conjunct2,
               THEN conjunct2, THEN conjunct2, THEN conjunct1]
  note t11 = t [THEN conjunct2, THEN conjunct2, THEN conjunct2, THEN conjunct2, THEN conjunct2,
                THEN conjunct2, THEN conjunct2, THEN conjunct2, THEN conjunct2, THEN conjunct2]
  have le: "lit realArith 0 \<le> lit realArith 1.5" by (simp add: realArith_def)
  have ab: "\<forall>y. mul realArith (lit realArith 0) y = lit realArith 0" by (simp add: realArith_def)
  have b: "\<not> isPerformingContextualAction exampleSelector"
    by (simp add: exampleSelector_def)
  have sel: "selMappings exampleSelector = contextMappings" by (simp add: exampleSelector_def)
  have w: "(1 / 2 :: real) < lit realArith (weight (contextMappings ! 0))"
    by (simp add: realArith_def contextMappings_def)
  have h: "handler (contextMappings ! 0) = ''performWalkingContext''"
    by (simp add: contextMappings_def)
  have lo: "asciiLower (''I want to WALK'' @ '' '' @ ''Outside?'') = ''i want to walk outside?''"
    using walk_text by simp
  have "scoreMapping realArith ''i want to walk outside?'' (contextMappings ! 0) (1 / 2)
        = (2 * real (length (filter (\<lambda>kw. sublist kw ''i want to walk outside?'')
                               (keywords' (contextMappings ! 0))))
           + real (length (filter (\<lambda>e. sublist e ''i want to walk outside?'')
                             (emotions (contextMappings ! 0)))))
          * (weight (contextMappings ! 0) * (0.8 + (1 / 2) * 0.4))"
    using t2 by (rule allE) (rule allE)
  then have s: "scoreMapping realArith ''i want to walk outside?'' (contextMappings ! 0) (1 / 2) = 3"
    by (simp add: contextMappings_def includes_sublist [symmetric])
  have "jitter realArith (1 / 2) = 0.8 + (1 / 2) * 0.4" using t3 by (rule allE)
  then have j: "jitter realArith (1 / 2) = 1" by simp
  have d: "\<exists>i<length contextMappings. contextMappings ! 0 = contextMappings ! i
         \<and> scoreMapping realArith ''i want to walk outside?'' (contextMappings ! i) (1 / 2) > 1.5
         \<and> (\<forall>j<length contextMappings.
               scoreMapping realArith ''i want to walk outside?'' (contextMappings ! j) (1 / 2)
               \<le> scoreMapping realArith ''i want to walk outside?'' (contextMappings ! i) (1 / 2))
         \<and> (\<forall>j<i. scoreMapping realArith ''i want to walk outside?'' (contextMappings ! j) (1 / 2)
               < scoreMapping realArith ''i want to walk outside?'' (contextMappings ! i) (1 / 2))"
  proof -
    from t6 le have "\<forall>m. findBestContextMatch realArith contextMappings
                           ''i want to walk outside?'' (\<lambda>_. 1 / 2) = Some m \<longrightarrow>
             (\<exists>i<length contextMappings. m = contextMappings ! i
                \<and> scoreMapping realArith ''i want to walk outside?'' (contextMappings ! i) (1 / 2)
                    > lit realArith 1.5
                \<and> (\<forall>j<length contextMappings.
                      scoreMapping realArith ''i want to walk outside?'' (contextMappings ! j) (1 / 2)
                      \<le> scoreMapping realArith ''i want to walk outside?'' (contextMappings ! i) (1 / 2))
                \<and> (\<forall>j<i. scoreMapping realArith ''i want to walk outside?'' (contextMappings ! j) (1 / 2)
                      < scoreMapping realArith ''i want to walk outside?'' (contextMappings ! i) (1 / 2)))"
      by blast
    with walk_best have "\<exists>i<length contextMappings. contextMappings ! 0 = contextMappings ! i
                \<and> scoreMapping realArith ''i want to walk outside?'' (contextMappings ! i) (1 / 2)
                    > lit realArith 1.5
                \<and> (\<forall>j<length contextMappings.
                      scoreMapping realArith ''i want to walk outside?'' (contextMappings ! j) (1 / 2)
                      \<le> scoreMapping realArith ''i want to walk outside?'' (contextMappings ! i) (1 / 2))
                \<and> (\<forall>j<i. scoreMapping realArith ''i want to walk outside?'' (contextMappings ! j) (1 / 2)
                      < scoreMapping realArith ''i want to walk outside?'' (contextMappings ! i) (1 / 2))"
      by blast
    moreover have "lit realArith 1.5 = (1.5::real)" by (simp add: realArith_def)
    ultimately show ?thesis by (simp only:)
  qed
  have f: "analyzeAndTriggerContextualAction realArith asciiLower ''I want to WALK'' ''Outside?''
         (\<lambda>_. 1 / 2) (1 / 2) exampleSelector
       = (exampleSelector\<lparr>isPerformingContextualAction := True\<rparr>,
          Some (''performWalkingContext'', ''i want to walk outside?''))"
  proof -
    have "\<not> isPerformingContextualAction exampleSelector
        \<and> findBestContextMatch realArith (selMappings exampleSelector)
            (asciiLower (''I want to WALK'' @ '' '' @ ''Outside?'')) (\<lambda>_. 1 / 2)
            = Some (contextMappings ! 0)
        \<and> (1 / 2 :: real) < lit realArith (weight (contextMappings ! 0))"
      using b w walk_best unfolding sel lo by (intro conjI)
    with t8 have "analyzeAndTriggerContextualAction realArith asciiLower ''I want to WALK''
                   ''Outside?'' (\<lambda>_. 1 / 2) (1 / 2) exampleSelector
          = (exampleSelector\<lparr>isPerformingContextualAction := True\<rparr>,
             Some (handler (contextMappings ! 0),
                   asciiLower (''I want to WALK'' @ '' '' @ ''Outside?'')))"
      by blast
    then show ?thesis unfolding h lo .
  qed
  have z: "analyzeAndTriggerContextualAction realArith asciiLower ''Hello'' ''Hi there''
         (\<lambda>_. 1 / 2) (1 / 2) exampleSelector
       = (exampleSelector, None)"
    using t11 le ab hello_no_words by blast
  have "(0::real) \<le> 1 / 2 \<and> (1 / 2 :: real) < 1" by simp
  with t4 have r: "0.8 \<le> jitter realArith (1 / 2) \<and> jitter realArith (1 / 2) < 1.2" by blast
  then have r1: "0.8 \<le> jitter realArith (1 / 2)" and r2: "jitter realArith (1 / 2) < 1.2"
    by (rule conjunct1, rule conjunct2)
  have "(0.8::real) \<le> 1 \<and> (1::real) < 1.2" by simp
  with t5 have o: "\<exists>roll. 0 \<le> roll \<and> roll < 1 \<and> jitter realArith roll = 1" by blast
  have "isPerformingContextualAction (exampleSelector\<lparr>isPerformingContextualAction := True\<rparr>)"
    by simp
  with t7 have y: "analyzeAndTriggerContextualAction realArith asciiLower ''I want to WALK''
         ''Outside?'' (\<lambda>_. 1 / 2) (1 / 2) (exampleSelector\<lparr>isPerformingContextualAction := True\<rparr>)
       = (exampleSelector\<lparr>isPerformingContextualAction := True\<rparr>, None)"
    by blast
  from s j r1 r2 o y walk_best d b f z show ?thesis by (intro conjI)
qed

section \<open>Properties of the action scheduler\<close>

lemma fold_invariant:
  "(\<And>x s. x \<in> set xs \<Longrightarrow> I s \<Longrightarrow> I (f x s)) \<Longrightarrow> I s \<Longrightarrow> I (fold f xs s)"
  by (induction xs arbitrary: s) simp_all

lemma rotateTo_frame [simp]:
  "actionQueue (rotateTo a d k s) = actionQueue s"
  "isExecuting (rotateTo a d k s) = isExecuting s"
  "trace (rotateTo a d k s) = trace s"
  "microtasks (rotateTo a d k s) = microtasks s"
  "joins (rotateTo a d k s) = joins s"
  by (simp_all add: rotateTo_def)

lemma moveToPosition_frame [simp]:
  "actionQueue (moveToPosition a d k s) = actionQueue s"
  "isExecuting (moveToPosition a d k s) = isExecuting s"
  "trace (moveToPosition a d k s) = trace s"
  "microtasks (moveToPosition a d k s) = microtasks s"
  "joins (moveToPosition a d k s) = joins s"
  by (simp_all add: moveToPosition_def)

lemma play_frame [simp]:
  "actionQueue (play n d l s) = actionQueue s"
  "isExecuting (play n d l s) = isExecuting s"
  "trace (play n d l s) = trace s"
  "microtasks (play n d l s) = microtasks s"
  "joins (play n d l s) = joins s"
  "pending (play n d l s) = pending s"
  "motionCtl (play n d l s) = motionCtl s"
  by (simp_all add: play_def)

lemma enter_frame [simp]:
  "actionQueue (enter a s) = actionQueue s"
  "isExecuting (enter a s)"
  "trace (enter a s) = trace s @ [Started a]"
  "microtasks (enter a s) = microtasks s"
  "joins (enter a s) = joins s"
  "pending (enter a s) = pending s"
  "motionCtl (enter a s) = motionCtl s"
  by (simp_all add: enter_def)

lemma executeAction_queue: "actionQueue (executeAction a k s) = actionQueue s"
proof (induction a k s rule: executeAction.induct)
  case (5 subAction rest k s)
  let ?a = "Composite (subAction # rest) True"
  let ?s2 = "(enter ?a s)\<lparr>joins := joins (enter ?a s) @ [(length (subAction # rest), Finally ?a # k)]\<rparr>"
  have "actionQueue (fold (\<lambda>sub. executeAction sub [Join (length (joins (enter ?a s)))])
                        (subAction # rest) ?s2) = actionQueue s"
    by (rule fold_invariant [where I = "\<lambda>t. actionQueue t = actionQueue s"])
       (simp_all add: 5)
  then show ?case by (simp add: Let_def)
qed (simp_all add: Let_def split: option.split)

lemma executeAction_busy: "isExecuting (executeAction a k s)"
proof (induction a k s rule: executeAction.induct)
  case (5 subAction rest k s)
  let ?a = "Composite (subAction # rest) True"
  let ?s2 = "(enter ?a s)\<lparr>joins := joins (enter ?a s) @ [(length (subAction # rest), Finally ?a # k)]\<rparr>"
  have "isExecuting (fold (\<lambda>sub. executeAction sub [Join (length (joins (enter ?a s)))])
                        (subAction # rest) ?s2)"
    by (rule fold_invariant [where I = isExecuting]) (simp_all add: 5)
  then show ?case by (simp add: Let_def)
qed (simp_all add: Let_def split: option.split)

lemma fold_trace:
  "(\<And>x s. x \<in> set xs \<Longrightarrow> trace (f x s) = trace s @ map Started (g x)) \<Longrightarrow>
   trace (fold f xs s) = trace s @ map Started (concat (map g xs))"
  by (induction xs arbitrary: s) simp_all

lemma executeAction_trace: "trace (executeAction a k s) = trace s @ map Started (launched a)"
proof (induction a k s rule: executeAction.induct)
  case (5 subAction rest k s)
  let ?a = "Composite (subAction # rest) True"
  let ?s2 = "(enter ?a s)\<lparr>joins := joins (enter ?a s) @ [(length (subAction # rest), Finally ?a # k)]\<rparr>"
  have "trace (fold (\<lambda>sub. executeAction sub [Join (length (joins (enter ?a s)))])
                        (subAction # rest) ?s2)
        = trace ?s2 @ map Started (concat (map launched (subAction # rest)))"
    by (rule fold_trace) (simp add: 5)
  then show ?case by (simp add: Let_def)
qed (simp_all add: Let_def split: option.split)

lemma launched_hd: "\<exists>ls. launched a = a # ls"
  by (induction a rule: launched.induct) simp_all

lemma launched_acts: "set (launched a) \<subseteq> acts a"
  by (induction a rule: launched.induct) auto


lemma arrivals_append: "arrivals (xs @ ys) = arrivals xs @ arrivals ys"
  by (induction xs rule: arrivals.induct) simp_all

lemma departures_append: "departures (xs @ ys) = departures xs @ departures ys"
  by (induction xs rule: departures.induct) simp_all

lemma arrivals_Started: "arrivals (map Started l) = []"
  by (induction l) simp_all

lemma departures_Started: "departures (map Started l) = []"
  by (induction l) simp_all

lemma executeAction_fifo: "fifo s \<Longrightarrow> fifo (executeAction a k s)"
  by (simp add: fifo_def executeAction_trace executeAction_queue arrivals_append
        departures_append arrivals_Started departures_Started)

lemma processQueue_fifo: "fifo s \<Longrightarrow> fifo (processQueue s)"
proof (cases "actionQueue s")
  case Nil
  then show "fifo s \<Longrightarrow> fifo (processQueue s)" by (simp add: processQueue_def)
next
  case (Cons d rest)
  assume "fifo s"
  then have "fifo (s\<lparr>actionQueue := rest, trace := trace s @ [Dequeued d]\<rparr>)"
    using Cons by (simp add: fifo_def arrivals_append departures_append)
  then show "fifo (processQueue s)"
    using Cons by (simp add: processQueue_def executeAction_fifo)
qed

lemma scheduleAction_fifo: "fifo s \<Longrightarrow> fifo (scheduleAction d s)"
  by (simp add: scheduleAction_def executeAction_fifo)
     (simp add: fifo_def arrivals_append departures_append)

lemma fifo_frame:
  "trace t = trace s \<Longrightarrow> actionQueue t = actionQueue s \<Longrightarrow> fifo s \<Longrightarrow> fifo t"
  by (simp add: fifo_def)


lemma resume_AfterMove_fifo: "fifo s \<Longrightarrow> fifo (resume (AfterMove # k) s)"
proof -
  assume f: "fifo s"
  have "trace (resume (AfterMove # k) s) = trace s"
    "actionQueue (resume (AfterMove # k) s) = actionQueue s"
    by (simp_all add: Let_def)
  with f show ?thesis by (simp only: fifo_def)
qed

lemma resume_AfterDelay_fifo: "fifo s \<Longrightarrow> fifo (resume (AfterDelay # k) s)"
proof -
  assume f: "fifo s"
  have "trace (resume (AfterDelay # k) s) = trace s"
    "actionQueue (resume (AfterDelay # k) s) = actionQueue s"
    by (simp_all add: Let_def)
  with f show ?thesis by (simp only: fifo_def)
qed

lemma resume_Finally_fifo: "fifo s \<Longrightarrow> fifo (resume (Finally a # k) s)"
proof -
  assume 7: "fifo s"
  have "fifo (s\<lparr>isExecuting := False, trace := trace s @ [Finished a]\<rparr>)"
    using 7 by (simp add: fifo_def arrivals_append departures_append)
  then have "fifo (processQueue (s\<lparr>isExecuting := False, trace := trace s @ [Finished a]\<rparr>))"
    by (rule processQueue_fifo)
  then show ?thesis by (simp add: Let_def fifo_def)
qed

lemma resume_NextSub_Cons_fifo: "fifo s \<Longrightarrow> fifo (resume (NextSub (x # rest) # k) s)"
  by (simp add: executeAction_fifo)

lemma resume_Join_fifo: "fifo s \<Longrightarrow> fifo (resume (Join j # k) s)"
  by (simp add: fifo_def Let_def split: prod.split)

lemma resume_Resolve_fifo: "fifo s \<Longrightarrow> fifo (resume (Resolve # k) s)"
  by (simp add: fifo_def)

lemma resume_AfterRotate_fifo: "fifo s \<Longrightarrow> fifo (resume (AfterRotate t d # k) s)"
  by (simp add: fifo_def)


lemma resume_AfterFace_fifo: "fifo s \<Longrightarrow> fifo (resume (AfterFace # k) s)"
  by (simp add: fifo_def)

lemma resume_NextSub_Nil_fifo: "fifo s \<Longrightarrow> fifo (resume (NextSub [] # k) s)"
  by (simp add: fifo_def)

lemma resume_fifo: "fifo s \<Longrightarrow> fifo (resume k s)"
proof (cases k)
  case Nil
  then show "fifo s \<Longrightarrow> fifo (resume k s)" by simp
next
  case (Cons f k')
  assume s: "fifo s"
  show "fifo (resume k s)"
  proof (cases f)
    case (NextSub xs)
    then show ?thesis using s Cons resume_NextSub_Nil_fifo resume_NextSub_Cons_fifo by (cases xs) simp_all
  qed (simp_all only: Cons resume_Resolve_fifo [OF s] resume_AfterRotate_fifo [OF s] resume_AfterMove_fifo [OF s] resume_AfterDelay_fifo [OF s] resume_AfterFace_fifo [OF s] resume_Finally_fifo [OF s] resume_Join_fifo [OF s])
qed

lemma newTask_frame [simp]:
  "actionQueue (newTask s) = actionQueue s"
  "isExecuting (newTask s) = isExecuting s"
  "trace (newTask s) = trace s"
  "microtasks (newTask s) = microtasks s"
  "joins (newTask s) = joins s"
  "pending (newTask s) = pending s"
  "motionCtl (newTask s) = motionCtl s"
  "clips (newTask s) = clips s"
  by (simp_all add: newTask_def)

lemma newTask_fifo: "fifo s \<Longrightarrow> fifo (newTask s)"
  by (simp add: fifo_def)

lemma complete_fifo:
  assumes "fifo s" and "complete i s = Some s'"
  shows "fifo s'"
proof -
  obtain w k where wk: "pending s ! i = (w, k)" by (cases "pending s ! i")
  from assms(2) wk have
    s': "s' = resume k (finishWait w (s\<lparr>pending := take i (pending s) @ drop (Suc i) (pending s)\<rparr>))"
    by (simp add: complete_def split: if_splits)
  have "fifo (finishWait w (s\<lparr>pending := take i (pending s) @ drop (Suc i) (pending s)\<rparr>))"
    using assms(1) by (cases w) (simp_all add: fifo_def finishWait_def)
  then show ?thesis unfolding s' by (rule resume_fifo)
qed

lemma step_fifo:
  assumes "fifo s" and "e \<noteq> CallCancelAll" and "step e s = Some s'"
  shows "fifo s'"
proof (cases e)
  case (CallSchedule d)
  with assms show ?thesis by (auto simp: scheduleAction_fifo newTask_fifo)
next
  case (CallExecute d)
  with assms show ?thesis by (auto simp: executeAction_fifo newTask_fifo)
next
  case CallCancelAll
  with assms show ?thesis by simp
next
  case (Complete i)
  with assms(3) have "complete i (newTask s) = Some s'" by simp
  with newTask_fifo [OF assms(1)] show ?thesis by (rule complete_fifo)
next
  case Microtask
  show ?thesis
  proof (cases "microtasks s")
    case Nil
    with assms(3) Microtask show ?thesis by (simp add: microtask_def)
  next
    case (Cons k ks)
    with assms(3) Microtask have s': "s' = resume k (s\<lparr>microtasks := ks\<rparr>)"
      by (simp add: microtask_def)
    have "fifo (s\<lparr>microtasks := ks\<rparr>)" using assms(1) by (simp add: fifo_def)
    then show ?thesis unfolding s' by (rule resume_fifo)
  qed
next
  case (ManagerTimer i)
  with assms(3) have "trace s' = trace s" "actionQueue s' = actionQueue s"
    by (auto simp: managerTimer_def split: if_splits)
  with assms(1) show ?thesis by (simp only: fifo_def)
qed

lemma run_fifo:
  "fifo s \<Longrightarrow> CallCancelAll \<notin> set es \<Longrightarrow> run es s = Some s' \<Longrightarrow> fifo s'"
proof (induction es arbitrary: s)
  case Nil
  then show ?case by simp
next
  case (Cons e es)
  from Cons.prems(3) obtain s1 where s1: "step e s = Some s1" "run es s1 = Some s'"
    by (cases "step e s") simp_all
  have "e \<noteq> CallCancelAll" using Cons.prems(2) by auto
  then have "fifo s1" using Cons.prems(1) s1(1) step_fifo by blast
  moreover have "CallCancelAll \<notin> set es" using Cons.prems(2) by simp
  ultimately show ?case using Cons.IH s1(2) by blast
qed

lemmas run_simps = scheduleAction_def enter_def play_def complete_def microtask_def
  processQueue_def finishWait_def orDefault_def rotateTo_def moveToPosition_def cancelAll_def
  newTask_def mayComplete_def timeoutOf_def
  Let_def idleScheduler_def jumpShot_def pawShot_def biteShot_def walkTo_def

lemma processQueue_Cons:
  "actionQueue s = d # rest \<Longrightarrow>
   processQueue s = executeAction d [] (s\<lparr>actionQueue := rest, trace := trace s @ [Dequeued d]\<rparr>)"
  by (simp add: processQueue_def)

lemma resume_Finally_starts_next:
  assumes "actionQueue s = d # rest"
  shows "trace (resume (Finally a # k) s)
           = trace s @ [Finished a, Dequeued d] @ map Started (launched d)"
    and "actionQueue (resume (Finally a # k) s) = rest"
    and "isExecuting (resume (Finally a # k) s)"
  using assms
  by (simp_all add: Let_def processQueue_Cons executeAction_trace executeAction_queue
        executeAction_busy)

text \<open>
  What the flag and the queue do. While \<open>isExecuting\<close> is set, \<open>scheduleAction\<close> only
  appends the descriptor to the queue. While it is clear, \<open>scheduleAction\<close> is
  \<open>executeAction\<close>: the descriptor is entered within the call, the flag is set afterwards
  and the queue is untouched. In every run without \<open>cancelAll\<close>, the descriptors taken from
  the queue so far followed by those still queued are the queued descriptors in their order
  of arrival. Whenever a call of \<open>executeAction\<close>, nested or not, reaches its \<open>finally\<close>
  block with a non-empty queue, the head of the queue is taken from it and entered in the
  same turn; with an empty queue, the flag is left clear.
\<close>

lemma queue_discipline:
  "(isExecuting s \<longrightarrow>
      scheduleAction d s = s\<lparr>actionQueue := actionQueue s @ [d], trace := trace s @ [Queued d]\<rparr>)
   \<and> (\<not> isExecuting s \<longrightarrow>
        scheduleAction d s = executeAction d [] s
        \<and> isExecuting (scheduleAction d s)
        \<and> actionQueue (scheduleAction d s) = actionQueue s
        \<and> (\<exists>ts. trace (scheduleAction d s) = trace s @ Started d # ts))
   \<and> (fifo s \<and> CallCancelAll \<notin> set es \<and> run es s = Some s' \<longrightarrow>
        arrivals (trace s') = departures (trace s') @ actionQueue s')
   \<and> (\<forall>a k next rest. actionQueue s = next # rest \<longrightarrow>
        (\<exists>ts. trace (resume (Finally a # k) s)
                = trace s @ [Finished a, Dequeued next, Started next] @ ts)
        \<and> actionQueue (resume (Finally a # k) s) = rest
        \<and> isExecuting (resume (Finally a # k) s))
   \<and> (\<forall>a k. actionQueue s = [] \<longrightarrow>
        \<not> isExecuting (resume (Finally a # k) s)
        \<and> trace (resume (Finally a # k) s) = trace s @ [Finished a])"
proof -
  have busy: "isExecuting s \<longrightarrow>
      scheduleAction d s = s\<lparr>actionQueue := actionQueue s @ [d], trace := trace s @ [Queued d]\<rparr>"
    by (simp add: scheduleAction_def)
  obtain ls where ls: "launched d = d # ls" using launched_hd by blast
  have idle: "\<not> isExecuting s \<longrightarrow>
        scheduleAction d s = executeAction d [] s
        \<and> isExecuting (scheduleAction d s)
        \<and> actionQueue (scheduleAction d s) = actionQueue s
        \<and> (\<exists>ts. trace (scheduleAction d s) = trace s @ Started d # ts)"
    by (simp add: scheduleAction_def executeAction_busy executeAction_queue executeAction_trace ls)
  have order: "fifo s \<and> CallCancelAll \<notin> set es \<and> run es s = Some s' \<longrightarrow>
        arrivals (trace s') = departures (trace s') @ actionQueue s'"
    using run_fifo [of s es s'] by (auto simp: fifo_def)
  have auto_start: "\<forall>a k next rest. actionQueue s = next # rest \<longrightarrow>
        (\<exists>ts. trace (resume (Finally a # k) s)
                = trace s @ [Finished a, Dequeued next, Started next] @ ts)
        \<and> actionQueue (resume (Finally a # k) s) = rest
        \<and> isExecuting (resume (Finally a # k) s)"
  proof (intro allI impI)
    fix a k "next" rest
    assume q: "actionQueue s = next # rest"
    obtain ns where ns: "launched next = next # ns" using launched_hd by blast
    show "(\<exists>ts. trace (resume (Finally a # k) s)
                = trace s @ [Finished a, Dequeued next, Started next] @ ts)
        \<and> actionQueue (resume (Finally a # k) s) = rest
        \<and> isExecuting (resume (Finally a # k) s)"
      using resume_Finally_starts_next [OF q, of a k] by (simp add: ns)
  qed
  have rest: "\<forall>a k. actionQueue s = [] \<longrightarrow>
        \<not> isExecuting (resume (Finally a # k) s)
        \<and> trace (resume (Finally a # k) s) = trace s @ [Finished a]"
    by (simp add: Let_def processQueue_def)
  from busy idle order auto_start rest show ?thesis by (intro conjI)
qed

text \<open>
  Three one-shot descriptors scheduled in a row, with no composite: each is entered when the
  one before it has ended.
\<close>

lemma fifo_run:
  "map_option (\<lambda>s. (trace s, actionQueue s))
    (run [CallSchedule jumpShot, CallSchedule pawShot, CallSchedule biteShot,
           Complete 0, Microtask, Complete 0, Microtask] idleScheduler)
   = Some ([Started jumpShot, Queued pawShot, Queued biteShot, Finished jumpShot,
               Dequeued pawShot, Started pawShot, Finished pawShot, Dequeued biteShot,
               Started biteShot], [])"
  by (simp add: run_simps)

text \<open>
  Two timers set in the same task fire in the order of their delays: once the jump of the
  composite has ended, the timer of the bite (1000 ms) and that of the paw attack (500 ms)
  are in flight, both set in that task, and the timer of the bite cannot fire first.
\<close>

lemma timers_fire_in_due_order:
  "map_option (\<lambda>s. map fst (pending s))
     (run [CallSchedule (Composite [jumpShot, pawShot] False), CallSchedule biteShot,
           Complete 0, Microtask, Microtask] idleScheduler)
   = Some [Timer 1000 3, Timer 500 3]
   \<and> run [CallSchedule (Composite [jumpShot, pawShot] False), CallSchedule biteShot,
           Complete 0, Microtask, Microtask, Complete 0] idleScheduler = None"
  by (simp add: run_simps)

text \<open>
  Claim C2 fails on the code at this run. A sequential composite of a jump (800 ms) and a
  paw attack (500 ms) is scheduled on the idle scheduler, and a bite (1000 ms) is scheduled
  while it runs, so it is queued. When the timer of the jump fires, the \<open>finally\<close> block of
  the nested \<open>executeAction\<close> call clears \<open>isExecuting\<close> and drains the queue: the bite
  starts before the composite has ended, and then the paw attack starts, so two executions
  are in flight, each with its timer. The timer of the paw attack is due first. When it
  fires, the paw attack and then the composite end, and \<open>isExecuting\<close> is left clear
  although the bite is still in flight, its timer pending.
\<close>

theorem composite_frees_scheduler_before_it_ends:
  "map_option (\<lambda>s. (isExecuting s, trace s, map fst (pending s)))
     (run [CallSchedule (Composite [jumpShot, pawShot] False), CallSchedule biteShot,
           Complete 0, Microtask, Microtask] idleScheduler)
   = Some (True,
           [Started (Composite [jumpShot, pawShot] False), Started jumpShot, Queued biteShot,
            Finished jumpShot, Dequeued biteShot, Started biteShot, Started pawShot],
           [Timer 1000 3, Timer 500 3])
   \<and> map_option (\<lambda>s. (isExecuting s, trace s, map fst (pending s)))
     (run [CallSchedule (Composite [jumpShot, pawShot] False), CallSchedule biteShot,
           Complete 0, Microtask, Microtask, Complete 1, Microtask, Microtask, Microtask]
        idleScheduler)
   = Some (False,
           [Started (Composite [jumpShot, pawShot] False), Started jumpShot, Queued biteShot,
            Finished jumpShot, Dequeued biteShot, Started biteShot, Started pawShot,
            Finished pawShot, Finished (Composite [jumpShot, pawShot] False)],
           [Timer 1000 3])"
  by (simp add: run_simps)

text \<open>
  Claim C5 fails on the code at this run, by the same defect. The composite of a jump and a
  paw attack is scheduled on the idle scheduler; a bite and then a walk are scheduled while
  it runs, and are queued in that order. When the jump ends, the bite is taken from the
  queue and started, although the action before it, the composite, has not completed; when
  the paw attack ends, the walk is taken and started, although the bite has not completed
  (its timer is pending beside the rotation tween of the walk). When the composite then
  ends, \<open>isExecuting\<close> is cleared while the bite and the walk are in flight, and a jump
  scheduled at that moment is not queued: it is started at once.
\<close>

theorem queued_descriptor_starts_before_previous_ends:
  "map_option (\<lambda>s. (isExecuting s, actionQueue s, trace s, map fst (pending s)))
     (run [CallSchedule (Composite [jumpShot, pawShot] False), CallSchedule biteShot,
           CallSchedule walkTo, Complete 0, Microtask, Microtask, Complete 1, Microtask]
        idleScheduler)
   = Some (True, [],
           [Started (Composite [jumpShot, pawShot] False), Started jumpShot, Queued biteShot,
            Queued walkTo, Finished jumpShot, Dequeued biteShot, Started biteShot,
            Started pawShot, Finished pawShot, Dequeued walkTo, Started walkTo],
           [Timer 1000 4, RotationTween (pi / 4) 0.5])
   \<and> map_option (\<lambda>s. (isExecuting s, actionQueue s, trace s, map fst (pending s)))
     (run [CallSchedule (Composite [jumpShot, pawShot] False), CallSchedule biteShot,
           CallSchedule walkTo, Complete 0, Microtask, Microtask, Complete 1, Microtask,
           Microtask, Microtask] idleScheduler)
   = Some (False, [],
           [Started (Composite [jumpShot, pawShot] False), Started jumpShot, Queued biteShot,
            Queued walkTo, Finished jumpShot, Dequeued biteShot, Started biteShot,
            Started pawShot, Finished pawShot, Dequeued walkTo, Started walkTo,
            Finished (Composite [jumpShot, pawShot] False)],
           [Timer 1000 4, RotationTween (pi / 4) 0.5])
   \<and> map_option (\<lambda>s. (isExecuting s, actionQueue s, trace s, map fst (pending s)))
     (run [CallSchedule (Composite [jumpShot, pawShot] False), CallSchedule biteShot,
           CallSchedule walkTo, Complete 0, Microtask, Microtask, Complete 1, Microtask,
           Microtask, Microtask, CallSchedule jumpShot] idleScheduler)
   = Some (True, [],
           [Started (Composite [jumpShot, pawShot] False), Started jumpShot, Queued biteShot,
            Queued walkTo, Finished jumpShot, Dequeued biteShot, Started biteShot,
            Started pawShot, Finished pawShot, Dequeued walkTo, Started walkTo,
            Finished (Composite [jumpShot, pawShot] False), Started jumpShot],
           [Timer 1000 4, RotationTween (pi / 4) 0.5, Timer 800 6])"
  by (simp add: run_simps yawTowards_def atan2_def arctan_one)

text \<open>
  Claim C7, as amended. \<open>cancelAll\<close> empties the queue, clears \<open>isExecuting\<close> and calls
  \<open>fadeToIdle\<close> (which makes the idle clip the active one when it exists and no cross-fade
  is in progress). It leaves the timers and tweens in flight, the microtasks, the joins, the
  motion controller and all the frames waiting on them as they were: a tween in flight is
  not interrupted, and the later stages of the action in flight still start when their turn
  comes (after the rotation of a locomotion its move tween starts; after a sub-action of a
  sequential composite the next one is entered). Only the queued descriptors are dropped.
\<close>

theorem cancelAll_drops_the_queue_only:
  "actionQueue (cancelAll s) = [] \<and> \<not> isExecuting (cancelAll s)
   \<and> clips (cancelAll s) = snd (fadeToIdle 0.5 (clips s))
   \<and> pending (cancelAll s) = pending s \<and> microtasks (cancelAll s) = microtasks s
   \<and> joins (cancelAll s) = joins s \<and> motionCtl (cancelAll s) = motionCtl s
   \<and> trace (cancelAll s) = trace s
   \<and> (animations (clips s) ''idle'' \<noteq> None \<and> \<not> isTransitioning (clips s) \<longrightarrow>
        activeAction (clips (cancelAll s)) = Some ''idle'')
   \<and> (\<forall>target duration k. \<not> isMoving (motionCtl s) \<longrightarrow>
        pending (resume (AfterRotate target duration # k) (cancelAll s))
        = pending s @ [(MoveTween target duration, AfterMove # k)])
   \<and> (\<forall>subAction rest k. \<exists>ts.
        trace (resume (NextSub (subAction # rest) # k) (cancelAll s))
        = trace s @ Started subAction # ts)"
proof -
  have idle: "animations (clips s) ''idle'' \<noteq> None \<and> \<not> isTransitioning (clips s) \<longrightarrow>
        activeAction (clips (cancelAll s)) = Some ''idle''"
    by (auto simp: cancelAll_def fadeToIdle_def playAction_def Let_def clearTimeouts_def
          split: option.splits)
  have stage: "\<forall>target duration k. \<not> isMoving (motionCtl s) \<longrightarrow>
        pending (resume (AfterRotate target duration # k) (cancelAll s))
        = pending s @ [(MoveTween target duration, AfterMove # k)]"
    by (simp add: cancelAll_def moveToPosition_def)
  have sub: "\<forall>subAction rest k. \<exists>ts.
        trace (resume (NextSub (subAction # rest) # k) (cancelAll s))
        = trace s @ Started subAction # ts"
  proof (intro allI)
    fix subAction rest k
    obtain ls where "launched subAction = subAction # ls" using launched_hd by blast
    then show "\<exists>ts. trace (resume (NextSub (subAction # rest) # k) (cancelAll s))
        = trace s @ Started subAction # ts"
      by (simp add: executeAction_trace cancelAll_def)
  qed
  have basics: "actionQueue (cancelAll s) = []" "\<not> isExecuting (cancelAll s)"
    "clips (cancelAll s) = snd (fadeToIdle 0.5 (clips s))"
    "pending (cancelAll s) = pending s" "microtasks (cancelAll s) = microtasks s"
    "joins (cancelAll s) = joins s" "motionCtl (cancelAll s) = motionCtl s"
    "trace (cancelAll s) = trace s"
    by (simp_all add: cancelAll_def)
  from basics idle stage sub show ?thesis by (intro conjI)
qed

theorem cancelAll_drops_the_queue_only_witness:
  "length (actionQueue threeQueued) = 3
   \<and> actionQueue (cancelAll threeQueued) = [] \<and> \<not> isExecuting (cancelAll threeQueued)
   \<and> animations (clips threeQueued) ''idle'' \<noteq> None \<and> \<not> isTransitioning (clips threeQueued)
   \<and> activeAction (clips (cancelAll threeQueued)) = Some ''idle''
   \<and> \<not> isMoving (motionCtl threeQueued)
   \<and> pending (resume [AfterRotate (1, 0, 1) 2500, Finally walkTo] (cancelAll threeQueued))
       = pending threeQueued @ [(MoveTween (1, 0, 1) 2500, [AfterMove, Finally walkTo])]"
proof -
  note t = cancelAll_drops_the_queue_only [of threeQueued]
  have h: "animations (clips threeQueued) ''idle'' \<noteq> None" "\<not> isTransitioning (clips threeQueued)"
    "\<not> isMoving (motionCtl threeQueued)" "length (actionQueue threeQueued) = 3"
    by (simp_all add: threeQueued_def idleScheduler_def idleManager_facts)
  have a: "actionQueue (cancelAll threeQueued) = []" "\<not> isExecuting (cancelAll threeQueued)"
    using t by blast+
  have b: "activeAction (clips (cancelAll threeQueued)) = Some ''idle''"
    using t h by blast
  have c: "pending (resume [AfterRotate (1, 0, 1) 2500, Finally walkTo] (cancelAll threeQueued))
       = pending threeQueued @ [(MoveTween (1, 0, 1) 2500, [AfterMove, Finally walkTo])]"
    using t h(3) by blast
  from h a b c show ?thesis by (intro conjI)
qed

text \<open>
  Claim C7 as stated has \<open>cancelAll\<close> prevent new stages from starting. A walk to a target
  is started and a jump queued; \<open>cancelAll\<close> is called while the walk is in its rotation
  stage. The queue is empty and the flag clear, but when the rotation completes the move
  stage of the walk starts all the same.
\<close>

theorem cancelAll_lets_next_stage_start:
  "map_option (\<lambda>s. (actionQueue s, isExecuting s, map fst (pending s), isMoving (motionCtl s)))
     (run [CallSchedule walkTo, CallSchedule jumpShot, CallCancelAll, Complete 0] idleScheduler)
   = Some ([], False, [MoveTween (1, 0, 1) 2500], True)"
  by (simp add: run_simps yawTowards_def)

end
